theory Spec2Isabelle
  imports Complex_Main
begin

section \<open>Strings\<close>

text \<open>
  JavaScript strings are modelled as \<^typ>\<open>string\<close>; a character stands for one code unit
  below 256. The helpers below are the string methods the code uses. Case conversion maps
  the ASCII letters only; its results are only ever compared with ASCII names.
\<close>

definition is_upper_ascii :: "char \<Rightarrow> bool" where
  "is_upper_ascii c = (65 \<le> (of_char c :: nat) \<and> (of_char c :: nat) \<le> 90)"

definition is_lower_ascii :: "char \<Rightarrow> bool" where
  "is_lower_ascii c = (97 \<le> (of_char c :: nat) \<and> (of_char c :: nat) \<le> 122)"

definition is_digit_ascii :: "char \<Rightarrow> bool" where
  "is_digit_ascii c = (48 \<le> (of_char c :: nat) \<and> (of_char c :: nat) \<le> 57)"

definition lower_char :: "char \<Rightarrow> char" where
  "lower_char c = (if is_upper_ascii c then char_of ((of_char c :: nat) + 32) else c)"

definition upper_char :: "char \<Rightarrow> char" where
  "upper_char c = (if is_lower_ascii c then char_of ((of_char c :: nat) - 32) else c)"

definition toLowerCase :: "string \<Rightarrow> string" where
  "toLowerCase s = map lower_char s"

definition toUpperCase :: "string \<Rightarrow> string" where
  "toUpperCase s = map upper_char s"

text \<open>The white space that \<open>String.prototype.trim\<close> strips, among code units below 256.\<close>

definition is_js_space :: "char \<Rightarrow> bool" where
  "is_js_space c = ((of_char c :: nat) \<in> {9, 10, 11, 12, 13, 32, 160})"

definition trim :: "string \<Rightarrow> string" where
  "trim s = rev (dropWhile is_js_space (rev (dropWhile is_js_space s)))"

text \<open>\<open>s.split(',')\<close>: the empty string splits into one empty piece.\<close>

fun split_on :: "char \<Rightarrow> string \<Rightarrow> string list" where
  "split_on d [] = [[]]"
| "split_on d (c # cs) =
     (if c = d then [] # split_on d cs
      else (case split_on d cs of
              [] \<Rightarrow> [[c]]
            | p # ps \<Rightarrow> (c # p) # ps))"

fun join_with :: "string \<Rightarrow> string list \<Rightarrow> string" where
  "join_with sep [] = []"
| "join_with sep [x] = x"
| "join_with sep (x # y # ys) = x @ sep @ join_with sep (y # ys)"

text \<open>Decimal rendering of a number in a template literal.\<close>

fun show_nat :: "nat \<Rightarrow> string" where
  "show_nat n =
     (if n < 10 then [''0123456789'' ! n]
      else show_nat (n div 10) @ [''0123456789'' ! (n mod 10)])"

declare show_nat.simps [simp del]

text \<open>Truthiness of a \<open>string | null\<close> field.\<close>

fun truthy_str :: "string option \<Rightarrow> bool" where
  "truthy_str None = False"
| "truthy_str (Some s) = (s \<noteq> [])"

section \<open>Errors and the outside world\<close>

datatype error_code = InvalidParams | InternalError

datatype error = Error string | McpError error_code string

datatype body = NoBody | FormBody "(string \<times> string) list" | JsonBody string

record http_request =
  req_url :: string
  req_method :: string
  req_headers :: "(string \<times> string) list"
  req_body :: body

record http_response =
  resp_status :: nat
  resp_statusText :: string
  resp_text :: string

record token_response =
  access_token :: string
  expires_in :: int

text \<open>
  JavaScript values that come from JSON. A number is a double; the finite ones are
  idealised as rationals, so rounding and overflow of products are not modelled.
\<close>

datatype js_number = Fin rat | PosInf | NegInf | NaN

datatype json =
  JNull | JBool bool | JNum js_number | JStr string | JArr "json list"
  | JObj "(string \<times> json) list"

fun js_truthy :: "json \<Rightarrow> bool" where
  "js_truthy JNull = False"
| "js_truthy (JBool b) = b"
| "js_truthy (JNum (Fin q)) = (q \<noteq> 0)"
| "js_truthy (JNum NaN) = False"
| "js_truthy (JNum _) = True"
| "js_truthy (JStr s) = (s \<noteq> [])"
| "js_truthy (JArr _) = True"
| "js_truthy (JObj _) = True"

text \<open>\<open>o.name\<close> on an object or array that came from JSON (an object lists each of its
  keys once); \<open>None\<close> is \<open>undefined\<close>.\<close>

fun js_prop :: "json \<Rightarrow> string \<Rightarrow> json option" where
  "js_prop (JObj kvs) k = map_of kvs k"
| "js_prop _ k = None"

definition success_marker :: json where
  "success_marker = JObj [(''success'', JBool True)]"

text \<open>
  The network and the JSON reader are parameters. \<open>fetch w i r\<close> is what the \<open>i\<close>-th
  \<open>fetch\<close> of an operation yields for request \<open>r\<close>: \<open>Inl\<close> when the promise rejects
  (connection error, or the abort after 30 seconds), \<open>Inr\<close> the response otherwise.
  \<open>token_json w\<close> is \<open>response.json()\<close> on a token response, \<open>Inl\<close> when the body does
  not parse. \<open>json_parse\<close> is \<open>JSON.parse\<close> (\<open>None\<close> when it throws),
  \<open>json_stringify\<close> is \<open>JSON.stringify\<close>, \<open>json_stringify_pretty\<close> is
  \<open>JSON.stringify\<close> with indentation 2, and \<open>num_to_string\<close> renders a number in a
  template literal.
\<close>

record world =
  fetch :: "nat \<Rightarrow> http_request \<Rightarrow> error + http_response"
  token_json :: "string \<Rightarrow> error + token_response"
  json_parse :: "string \<Rightarrow> json option"
  json_stringify :: "json \<Rightarrow> string"
  json_stringify_pretty :: "json \<Rightarrow> string"
  num_to_string :: "js_number \<Rightarrow> string"

definition response_ok :: "http_response \<Rightarrow> bool" where
  "response_ok r = (200 \<le> resp_status r \<and> resp_status r \<le> 299)"

record env =
  NINJA_BASE_URL :: "string option"
  NINJA_REGION :: "string option"
  NINJA_CLIENT_ID :: "string option"
  NINJA_CLIENT_SECRET :: "string option"
  NINJA_BASE_URLS :: "string option"

text \<open>\<open>x || ''\<close> on an environment variable.\<close>

fun or_empty :: "string option \<Rightarrow> string" where
  "or_empty None = []"
| "or_empty (Some s) = s"

section \<open>The credential cache: class NinjaOneAPI\<close>

record api_state =
  baseUrl :: "string option"
  clientId :: string
  clientSecret :: string
  accessToken :: "string option"
  tokenExpiry :: "int option"
  isConfigured :: bool
  baseUrlExplicit :: bool

definition REGION_MAP :: "(string \<times> string) list" where
  "REGION_MAP =
     [(''us'', ''https://app.ninjarmm.com''),
      (''us2'', ''https://us2.ninjarmm.com''),
      (''eu'', ''https://eu.ninjarmm.com''),
      (''ca'', ''https://ca.ninjarmm.com''),
      (''oc'', ''https://oc.ninjarmm.com'')]"

text \<open>
  \<open>REGION_MAP[key]\<close> on the object literal. The two lower-case names that an object
  literal inherits from \<open>Object.prototype\<close> yield a truthy non-string; every later use
  coerces it to a string, so it is represented by that string.
\<close>

definition REGION_MAP_get :: "string \<Rightarrow> string option" where
  "REGION_MAP_get key =
     (case map_of REGION_MAP key of
        Some u \<Rightarrow> Some u
      | None \<Rightarrow>
          if key = ''constructor'' then Some ''function Object() { [native code] }''
          else if key = ''__proto__'' then Some ''[object Object]''
          else None)"

definition DEFAULT_CANDIDATES :: "string list" where
  "DEFAULT_CANDIDATES =
     [''https://app.ninjarmm.com'',
      ''https://us2.ninjarmm.com'',
      ''https://eu.ninjarmm.com'',
      ''https://ca.ninjarmm.com'',
      ''https://oc.ninjarmm.com'']"

text \<open>\<open>/^https?:\/\//i.test(url)\<close>\<close>

definition has_http_scheme :: "string \<Rightarrow> bool" where
  "has_http_scheme u =
     (toLowerCase (take 7 u) = ''http://'' \<or> toLowerCase (take 8 u) = ''https://'')"

definition normalizeBaseUrl :: "string \<Rightarrow> string" where
  "normalizeBaseUrl u = (if \<not> has_http_scheme u then ''https://'' @ u else u)"

text \<open>\<open>/^https:\/\/[\w-]+\.ninjarmm\.com$/.test(s)\<close>\<close>

definition is_word_or_dash :: "char \<Rightarrow> bool" where
  "is_word_or_dash c =
     (is_upper_ascii c \<or> is_lower_ascii c \<or> is_digit_ascii c \<or> c = CHR ''_'' \<or> c = CHR ''-'')"

definition ALLOWED_DOMAIN_PATTERN :: "string \<Rightarrow> bool" where
  "ALLOWED_DOMAIN_PATTERN s =
     (let p = ''https://''; q = ''.ninjarmm.com'';
          m = take (length s - length p - length q) (drop (length p) s)
      in length p + length q < length s \<and> take (length p) s = p
         \<and> drop (length s - length q) s = q \<and> list_all is_word_or_dash m)"

definition constructor :: "env \<Rightarrow> api_state" where
  "constructor e =
     (let envBase = NINJA_BASE_URL e;
          envRegion = toLowerCase (or_empty (NINJA_REGION e));
          cid = or_empty (NINJA_CLIENT_ID e);
          csec = or_empty (NINJA_CLIENT_SECRET e);
          (b, ex) =
            (if truthy_str envBase then (Some (normalizeBaseUrl (or_empty envBase)), True)
             else if envRegion \<noteq> [] \<and> truthy_str (REGION_MAP_get envRegion)
               then (REGION_MAP_get envRegion, True)
             else (None, False))
      in \<lparr> baseUrl = b, clientId = cid, clientSecret = csec, accessToken = None,
           tokenExpiry = None, isConfigured = (cid \<noteq> [] \<and> csec \<noteq> []),
           baseUrlExplicit = ex \<rparr>)"

definition getCandidateBaseUrls :: "env \<Rightarrow> string list" where
  "getCandidateBaseUrls e =
     (let fromEnv = map normalizeBaseUrl
            (filter (\<lambda>s. s \<noteq> []) (map trim (split_on CHR '','' (or_empty (NINJA_BASE_URLS e)))))
      in if length fromEnv > 0 then fromEnv else DEFAULT_CANDIDATES)"

definition token_request :: "api_state \<Rightarrow> string \<Rightarrow> http_request" where
  "token_request s b =
     \<lparr> req_url = b @ ''/ws/oauth/token'',
       req_method = ''POST'',
       req_headers = [(''Content-Type'', ''application/x-www-form-urlencoded'')],
       req_body = FormBody
         [(''grant_type'', ''client_credentials''),
          (''client_id'', clientId s),
          (''client_secret'', clientSecret s),
          (''scope'', ''monitoring management control'')] \<rparr>"

definition requestToken :: "world \<Rightarrow> nat \<Rightarrow> api_state \<Rightarrow> string \<Rightarrow> error + token_response" where
  "requestToken w i s b =
     (case fetch w i (token_request s b) of
        Inl e \<Rightarrow> Inl e
      | Inr r \<Rightarrow>
          if \<not> response_ok r
          then Inl (Error (''OAuth token request failed: '' @ show_nat (resp_status r)
                            @ '' '' @ resp_statusText r))
          else token_json w (resp_text r))"

text \<open>
  An operation yields its result (\<open>Inl\<close> the error thrown), the state it leaves and the
  requests it sent, in order.
\<close>

type_synonym 'a outcome = "(error + 'a) \<times> api_state \<times> http_request list"

definition store_token :: "int \<Rightarrow> token_response \<Rightarrow> api_state \<Rightarrow> api_state" where
  "store_token t tok s =
     s\<lparr> accessToken := Some (access_token tok),
        tokenExpiry := Some (t + expires_in tok * 1000) \<rparr>"

text \<open>
  The loop over the candidates of \<open>getAccessToken\<close>; \<open>tried\<close> is the local list, \<open>i\<close>
  counts the requests sent so far, \<open>t\<close> is \<open>Date.now()\<close> read when a token arrives.
\<close>

fun sweep :: "world \<Rightarrow> int \<Rightarrow> api_state \<Rightarrow> string list \<Rightarrow> nat \<Rightarrow> string list \<Rightarrow> string outcome" where
  "sweep w t s tried i [] =
     (Inl (Error (''Failed to acquire OAuth token: no candidate base URL succeeded. Tried: ''
                  @ join_with '', '' tried)), s, [])"
| "sweep w t s tried i (c # cs) =
     (case requestToken w i s c of
        Inr tok \<Rightarrow>
          (Inr (access_token tok),
           store_token t tok (s\<lparr> baseUrl := Some c, baseUrlExplicit := True \<rparr>),
           [token_request s c])
      | Inl e \<Rightarrow>
          (case sweep w t s (tried @ [c]) (Suc i) cs of
             (r, s', sent) \<Rightarrow> (r, s', token_request s c # sent)))"

text \<open>The cached token, when line 71 returns it.\<close>

definition cached_token :: "api_state \<Rightarrow> int \<Rightarrow> string option" where
  "cached_token s now =
     (case (accessToken s, tokenExpiry s) of
        (Some a, Some x) \<Rightarrow> if a \<noteq> [] \<and> x \<noteq> 0 \<and> now < x - 300000 then Some a else None
      | _ \<Rightarrow> None)"

text \<open>
  \<open>now\<close> is \<open>Date.now()\<close> at the cache test, \<open>later\<close> is \<open>Date.now()\<close> when a token
  response has arrived.
\<close>

definition getAccessToken :: "env \<Rightarrow> world \<Rightarrow> int \<Rightarrow> int \<Rightarrow> api_state \<Rightarrow> string outcome" where
  "getAccessToken e w now later s =
     (if \<not> isConfigured s
      then (Inl (Error ''NinjaONE API not configured - NINJA_CLIENT_ID and NINJA_CLIENT_SECRET required''),
            s, [])
      else case cached_token s now of
        Some a \<Rightarrow> (Inr a, s, [])
      | None \<Rightarrow>
          if \<not> truthy_str (baseUrl s) \<or> \<not> baseUrlExplicit s
          then sweep w later s [] 0 (getCandidateBaseUrls e)
          else
            (case requestToken w 0 s (or_empty (baseUrl s)) of
               Inl err \<Rightarrow> (Inl err, s, [token_request s (or_empty (baseUrl s))])
             | Inr tok \<Rightarrow>
                 (Inr (access_token tok), store_token later tok s,
                  [token_request s (or_empty (baseUrl s))])))"

definition setBaseUrl :: "string \<Rightarrow> api_state \<Rightarrow> unit outcome" where
  "setBaseUrl u s =
     (let normalized = normalizeBaseUrl u;
          knownUrls = map snd REGION_MAP
      in if normalized \<notin> set knownUrls \<and> \<not> ALLOWED_DOMAIN_PATTERN normalized
         then (Inl (Error (''Invalid base URL: '' @ normalized
                 @ ''. URL must be a known NinjaRMM region or match https://<subdomain>.ninjarmm.com'')),
               s, [])
         else (Inr (),
               s\<lparr> baseUrl := Some normalized, baseUrlExplicit := True,
                  accessToken := None, tokenExpiry := None \<rparr>,
               []))"

definition setRegion :: "string \<Rightarrow> api_state \<Rightarrow> unit outcome" where
  "setRegion region s =
     (let key = toLowerCase region
      in case REGION_MAP_get key of
           None \<Rightarrow> (Inl (Error (''Unknown region: '' @ region)), s, [])
         | Some mapped \<Rightarrow>
             if mapped = [] then (Inl (Error (''Unknown region: '' @ region)), s, [])
             else setBaseUrl mapped s)"

text \<open>
  \<open>makeRequest(endpoint, method, body)\<close>. The body is \<open>None\<close> when the argument is
  omitted. Reading the body text of a response that has arrived is taken to succeed.
\<close>

definition api_request :: "world \<Rightarrow> string \<Rightarrow> string \<Rightarrow> string \<Rightarrow> string \<Rightarrow> json option \<Rightarrow> http_request" where
  "api_request w base token endpoint m bdy =
     (let hs = [(''Authorization'', ''Bearer '' @ token), (''Accept'', ''*/*'')];
          with_body = (case bdy of None \<Rightarrow> False
                       | Some b \<Rightarrow> js_truthy b \<and> m \<in> set [''POST'', ''PUT'', ''PATCH''])
      in \<lparr> req_url = base @ endpoint,
           req_method = m,
           req_headers = (if with_body then hs @ [(''Content-Type'', ''application/json'')] else hs),
           req_body = (case bdy of None \<Rightarrow> NoBody
                       | Some b \<Rightarrow> if with_body then JsonBody (json_stringify w b) else NoBody) \<rparr>)"

text \<open>\<open>this.baseUrl || NinjaOneAPI.DEFAULT_CANDIDATES[0]\<close>\<close>

definition request_base :: "api_state \<Rightarrow> string" where
  "request_base s =
     (if truthy_str (baseUrl s) then or_empty (baseUrl s) else DEFAULT_CANDIDATES ! 0)"

definition makeRequest ::
  "env \<Rightarrow> world \<Rightarrow> int \<Rightarrow> int \<Rightarrow> string \<Rightarrow> string \<Rightarrow> json option \<Rightarrow> api_state \<Rightarrow> json outcome" where
  "makeRequest e w now later endpoint m bdy s =
     (case getAccessToken e w now later s of
        (Inl err, s', sent) \<Rightarrow> (Inl err, s', sent)
      | (Inr token, s', sent) \<Rightarrow>
          (let base = request_base s';
               rq = api_request w base token endpoint m bdy
           in case fetch w (length sent) rq of
                Inl err \<Rightarrow> (Inl err, s', sent @ [rq])
              | Inr r \<Rightarrow>
                  if \<not> response_ok r
                  then (Inl (Error (''API request failed: '' @ show_nat (resp_status r) @ '' ''
                                    @ resp_statusText r @ '' - '' @ resp_text r)),
                        s', sent @ [rq])
                  else if m = ''DELETE'' \<and> resp_status r = 204
                  then (Inr success_marker, s', sent @ [rq])
                  else if resp_text r = [] \<or> length (trim (resp_text r)) = 0
                  then (Inr success_marker, s', sent @ [rq])
                  else (case json_parse w (resp_text r) of
                          Some v \<Rightarrow> (Inr v, s', sent @ [rq])
                        | None \<Rightarrow> (Inr success_marker, s', sent @ [rq]))))"

text \<open>
  The states the object can be in when its operations run one after the other: the
  constructor's, and what \<open>getAccessToken\<close> (which every API method reaches through
  \<open>makeRequest\<close>), \<open>setBaseUrl\<close> and \<open>setRegion\<close> leave, whether they return or throw.
\<close>

inductive reachable :: "api_state \<Rightarrow> bool" where
  reachable_constructor: "reachable (constructor e)"
| reachable_getAccessToken:
    "reachable s \<Longrightarrow> getAccessToken e w now later s = (r, s', sent) \<Longrightarrow> reachable s'"
| reachable_setBaseUrl:
    "reachable s \<Longrightarrow> setBaseUrl u s = (r', s', sent) \<Longrightarrow> reachable s'"
| reachable_setRegion:
    "reachable s \<Longrightarrow> setRegion g s = (r', s', sent) \<Longrightarrow> reachable s'"

text \<open>The endpoint is pinned when line 75 does not enter the candidate loop.\<close>

definition endpoint_pinned :: "api_state \<Rightarrow> bool" where
  "endpoint_pinned s = (truthy_str (baseUrl s) \<and> baseUrlExplicit s)"

text \<open>What holds of every reachable state: a token is only ever cached by a configured
  object that has its endpoint pinned.\<close>

definition cache_inv :: "api_state \<Rightarrow> bool" where
  "cache_inv s = (accessToken s \<noteq> None \<longrightarrow> isConfigured s \<and> endpoint_pinned s)"

text \<open>A concrete setting: credentials configured, no endpoint given, and a network in
  which only the EU host issues tokens.\<close>

definition example_env :: env where
  "example_env =
     \<lparr> NINJA_BASE_URL = None, NINJA_REGION = None, NINJA_CLIENT_ID = Some ''id'',
       NINJA_CLIENT_SECRET = Some ''secret'', NINJA_BASE_URLS = None \<rparr>"

definition example_world :: world where
  "example_world =
     \<lparr> fetch = (\<lambda>i rq. if req_url rq = ''https://eu.ninjarmm.com/ws/oauth/token''
                          then Inr \<lparr> resp_status = 200, resp_statusText = ''OK'', resp_text = ''T'' \<rparr>
                          else Inl (Error ''fetch failed'')),
       token_json = (\<lambda>t. Inr \<lparr> access_token = ''tok'', expires_in = 3600 \<rparr>),
       json_parse = (\<lambda>t. None),
       json_stringify = (\<lambda>j. []),
       json_stringify_pretty = (\<lambda>j. []),
       num_to_string = (\<lambda>n. []) \<rparr>"

text \<open>The same setting with every host unreachable.\<close>

definition offline_world :: world where
  "offline_world = example_world \<lparr> fetch := (\<lambda>i rq. Inl (Error ''fetch failed'')) \<rparr>"

text \<open>The state that the first acquisition leaves in that setting.\<close>

definition cached_state :: api_state where
  "cached_state =
     \<lparr> baseUrl = Some ''https://eu.ninjarmm.com'', clientId = ''id'', clientSecret = ''secret'',
       accessToken = Some ''tok'', tokenExpiry = Some 3601000, isConfigured = True,
       baseUrlExplicit = True \<rparr>"

text \<open>
  The allow-list in the words of the specification: a known region base URL, or
  \<open>https://<subdomain>.ninjarmm.com\<close> with a non-empty subdomain of letters, digits,
  underscores and dashes.
\<close>

definition allow_listed :: "string \<Rightarrow> bool" where
  "allow_listed n \<longleftrightarrow>
     n \<in> {''https://app.ninjarmm.com'', ''https://us2.ninjarmm.com'', ''https://eu.ninjarmm.com'',
           ''https://ca.ninjarmm.com'', ''https://oc.ninjarmm.com''}
     \<or> (\<exists>sub. sub \<noteq> [] \<and> list_all is_word_or_dash sub \<and> n = ''https://'' @ sub @ ''.ninjarmm.com'')"

text \<open>Networks that answer every request with one fixed response.\<close>

definition answering :: "http_response \<Rightarrow> world" where
  "answering r = example_world \<lparr> fetch := (\<lambda>i rq. Inr r) \<rparr>"

definition long_body :: string where
  "long_body = replicate 100000 (CHR ''x'')"

section \<open>Concurrent calls of getAccessToken\<close>

text \<open>
  \<open>getAccessToken\<close> is an \<open>async\<close> function on a single thread: a call runs without
  interruption up to the \<open>await\<close> of a token request, and resumes, again without
  interruption, when that request has settled. A task is a call in flight: finished, or
  waiting for the answer of a candidate in the loop (with the local list \<open>tried\<close>, the
  candidate asked, and the candidates left), or waiting for the answer of the pinned
  endpoint.
\<close>

datatype task =
  Done "error + string"
  | AwaitingCandidate "string list" string "string list"
  | AwaitingExplicit

text \<open>The part of a call up to its first \<open>await\<close>: the task and the requests sent.\<close>

definition start_getAccessToken :: "env \<Rightarrow> int \<Rightarrow> api_state \<Rightarrow> task \<times> http_request list" where
  "start_getAccessToken e now s =
     (if \<not> isConfigured s
      then (Done (Inl (Error ''NinjaONE API not configured - NINJA_CLIENT_ID and NINJA_CLIENT_SECRET required'')),
            [])
      else case cached_token s now of
        Some a \<Rightarrow> (Done (Inr a), [])
      | None \<Rightarrow>
          if \<not> truthy_str (baseUrl s) \<or> \<not> baseUrlExplicit s
          then (case getCandidateBaseUrls e of
                  [] \<Rightarrow>
                    (Done (Inl (Error
                       (''Failed to acquire OAuth token: no candidate base URL succeeded. Tried: ''
                        @ join_with '', '' []))), [])
                | c # cs \<Rightarrow> (AwaitingCandidate [c] c cs, [token_request s c]))
          else (AwaitingExplicit, [token_request s (or_empty (baseUrl s))]))"

text \<open>
  The part of a call from the moment its token request has settled with \<open>out\<close> up to its
  next \<open>await\<close> or its end; \<open>t\<close> is \<open>Date.now()\<close> then, \<open>s\<close> the state of the object then.
\<close>

fun resume_getAccessToken ::
  "error + token_response \<Rightarrow> int \<Rightarrow> task \<Rightarrow> api_state \<Rightarrow> task \<times> api_state \<times> http_request list" where
  "resume_getAccessToken out t (AwaitingCandidate tried c cs) s =
     (case out of
        Inr tok \<Rightarrow>
          (Done (Inr (access_token tok)),
           store_token t tok (s\<lparr> baseUrl := Some c, baseUrlExplicit := True \<rparr>), [])
      | Inl err \<Rightarrow>
          (case cs of
             [] \<Rightarrow>
               (Done (Inl (Error
                  (''Failed to acquire OAuth token: no candidate base URL succeeded. Tried: ''
                   @ join_with '', '' tried))), s, [])
           | c' # cs' \<Rightarrow> (AwaitingCandidate (tried @ [c']) c' cs', s, [token_request s c'])))"
| "resume_getAccessToken out t AwaitingExplicit s =
     (case out of
        Inr tok \<Rightarrow> (Done (Inr (access_token tok)), store_token t tok s, [])
      | Inl err \<Rightarrow> (Done (Inl err), s, []))"
| "resume_getAccessToken out t (Done r) s = (Done r, s, [])"

text \<open>
  The object with its calls in flight. The scheduler starts a new call, lets the pending
  token request of task \<open>i\<close> settle (nothing happens when task \<open>i\<close> is not waiting), or
  runs \<open>setBaseUrl\<close> or \<open>setRegion\<close> (which are synchronous; what they throw is dropped
  here). Every request in the log carries the number of the call that sent it.
\<close>

record system =
  sys_state :: api_state
  sys_tasks :: "task list"
  sys_sent :: "(nat \<times> http_request) list"

datatype sched =
  Call env int | Settle nat "error + token_response" int | SetBaseUrl string | SetRegion string

fun sys_step :: "sched \<Rightarrow> system \<Rightarrow> system" where
  "sys_step (Call e now) sys =
     (case start_getAccessToken e now (sys_state sys) of
        (tk, sent) \<Rightarrow>
          sys\<lparr> sys_tasks := sys_tasks sys @ [tk],
               sys_sent := sys_sent sys @ map (Pair (length (sys_tasks sys))) sent \<rparr>)"
| "sys_step (Settle i out t) sys =
     (if i < length (sys_tasks sys)
      then (case resume_getAccessToken out t (sys_tasks sys ! i) (sys_state sys) of
              (tk, s', sent) \<Rightarrow>
                \<lparr> sys_state = s', sys_tasks = (sys_tasks sys)[i := tk],
                  sys_sent = sys_sent sys @ map (Pair i) sent \<rparr>)
      else sys)"
| "sys_step (SetBaseUrl u) sys =
     (case setBaseUrl u (sys_state sys) of (r, s', sent) \<Rightarrow> sys\<lparr> sys_state := s' \<rparr>)"
| "sys_step (SetRegion g) sys =
     (case setRegion g (sys_state sys) of (r, s', sent) \<Rightarrow> sys\<lparr> sys_state := s' \<rparr>)"

fun sys_run :: "sched list \<Rightarrow> system \<Rightarrow> system" where
  "sys_run [] sys = sys"
| "sys_run (x # xs) sys = sys_run xs (sys_step x sys)"

text \<open>The requests that call \<open>i\<close> has sent, and the answers that a schedule gives to it.\<close>

definition requests_of :: "nat \<Rightarrow> system \<Rightarrow> http_request list" where
  "requests_of i sys = map snd (filter (\<lambda>p. fst p = i) (sys_sent sys))"

fun outcomes_for :: "nat \<Rightarrow> sched list \<Rightarrow> (error + token_response) list" where
  "outcomes_for i [] = []"
| "outcomes_for i (Settle j out t # xs) =
     (if j = i then out # outcomes_for i xs else outcomes_for i xs)"
| "outcomes_for i (x # xs) = outcomes_for i xs"




fun is_done :: "task \<Rightarrow> bool" where
  "is_done (Done r) = True"
| "is_done tk = False"

text \<open>
  What a call in the candidate loop has come to, in terms of its own answers alone: with
  \<open>f\<close> failures before its first success it has asked the first \<open>f + 1\<close> candidates (all
  of them when there are no more); it has ended with the error that lists every candidate
  when all have failed, with the token of its first success when there is one, and is
  waiting for candidate \<open>f\<close> otherwise.
\<close>

definition sweep_view ::
  "api_state \<Rightarrow> string list \<Rightarrow> (error + token_response) list \<Rightarrow> task \<times> http_request list" where
  "sweep_view s cs outs =
     (let f = length (takeWhile isl outs) in
      (if length cs \<le> f
       then Done (Inl (Error
              (''Failed to acquire OAuth token: no candidate base URL succeeded. Tried: ''
               @ join_with '', '' cs)))
       else if f < length outs
       then (case outs ! f of
               Inr tok \<Rightarrow> Done (Inr (access_token tok))
             | Inl err \<Rightarrow> Done (Inl err))
       else AwaitingCandidate (take (Suc f) cs) (cs ! f) (drop (Suc f) cs),
       map (token_request s) (take (Suc f) cs)))"

text \<open>The same for a call on a pinned endpoint: one request, and the first answer decides.\<close>

definition explicit_view ::
  "api_state \<Rightarrow> (error + token_response) list \<Rightarrow> task \<times> http_request list" where
  "explicit_view s outs =
     (case outs of
        [] \<Rightarrow> AwaitingExplicit
      | Inr tok # _ \<Rightarrow> Done (Inr (access_token tok))
      | Inl err # _ \<Rightarrow> Done (Inl err),
      [token_request s (or_empty (baseUrl s))])"

text \<open>One call alone, driven to its end by the answers of the world, request \<open>i\<close> first.\<close>

function drive :: "world \<Rightarrow> int \<Rightarrow> nat \<Rightarrow> task \<Rightarrow> api_state \<Rightarrow> string outcome" where
  "drive w t i (Done r) s = (r, s, [])"
| "drive w t i AwaitingExplicit s =
     (case resume_getAccessToken (requestToken w i s (or_empty (baseUrl s))) t AwaitingExplicit s of
        (tk, s', sent) \<Rightarrow>
          (case drive w t (Suc i) tk s' of (r, s'', sent') \<Rightarrow> (r, s'', sent @ sent')))"
| "drive w t i (AwaitingCandidate tried c cs) s =
     (case resume_getAccessToken (requestToken w i s c) t (AwaitingCandidate tried c cs) s of
        (tk, s', sent) \<Rightarrow>
          (case drive w t (Suc i) tk s' of (r, s'', sent') \<Rightarrow> (r, s'', sent @ sent')))"
  by pat_completeness auto
termination
  by (relation "measure (\<lambda>(w, t, i, tk, s).
        case tk of Done r \<Rightarrow> 0 | AwaitingExplicit \<Rightarrow> 1
        | AwaitingCandidate tried c cs \<Rightarrow> Suc (length cs))")
     (auto split: sum.splits list.splits)

section \<open>The set_device_maintenance tool\<close>

datatype maintenance_window = Permanent | Window js_number string int

definition MAINTENANCE_UNIT_SECONDS :: "(string \<times> int) list" where
  "MAINTENANCE_UNIT_SECONDS =
     [(''MINUTES'', 60), (''HOURS'', 60 * 60), (''DAYS'', 24 * 60 * 60),
      (''WEEKS'', 7 * 24 * 60 * 60)]"

text \<open>\<open>Math.round\<close> on a finite number.\<close>

definition js_round :: "rat \<Rightarrow> int" where
  "js_round q = \<lfloor>q + 1 / 2\<rfloor>"

text \<open>
  \<open>NinjaOneAPI.setDeviceMaintenance(id, mode, duration)\<close>; \<open>t0\<close> is \<open>Date.now()\<close> read for
  the start of the window.
\<close>

definition setDeviceMaintenance ::
  "env \<Rightarrow> world \<Rightarrow> int \<Rightarrow> int \<Rightarrow> int \<Rightarrow> js_number \<Rightarrow> string \<Rightarrow> maintenance_window option
   \<Rightarrow> api_state \<Rightarrow> json outcome" where
  "setDeviceMaintenance e w t0 now later dev mode duration s =
     (if mode = ''OFF''
      then makeRequest e w now later (''/v2/device/'' @ num_to_string w dev @ ''/maintenance'')
             ''DELETE'' None s
      else case duration of
        None \<Rightarrow>
          (Inl (Error ''Maintenance duration selection is required when enabling maintenance mode''),
           s, [])
      | Some d \<Rightarrow>
          (let start = (t0 + 5000) div 1000;
               reasonMessage =
                 (case d of
                    Permanent \<Rightarrow> ''Maintenance mode enabled via API (permanent)''
                  | Window v u secs \<Rightarrow>
                      ''Maintenance mode enabled via API for '' @ num_to_string w v @ '' ''
                      @ toLowerCase u);
               fields =
                 [(''disabledFeatures'',
                   JArr [JStr ''ALERTS'', JStr ''PATCHING'', JStr ''AVSCANS'', JStr ''TASKS'']),
                  (''start'', JNum (Fin (of_int start))),
                  (''reasonMessage'', JStr reasonMessage)];
               bdy =
                 (case d of
                    Permanent \<Rightarrow> JObj fields
                  | Window v u secs \<Rightarrow>
                      JObj (fields @ [(''end'', JNum (Fin (of_int (start + secs))))]))
           in makeRequest e w now later
                (''/v2/device/'' @ num_to_string w dev @ ''/maintenance'') ''PUT'' (Some bdy) s))"

text \<open>\<open>typeof x === 'object'\<close> for a value that is not \<open>null\<close>.\<close>

fun is_object :: "json \<Rightarrow> bool" where
  "is_object (JObj _) = True"
| "is_object (JArr _) = True"
| "is_object _ = False"

text \<open>
  The case \<open>'set_device_maintenance'\<close> of \<open>ToolHandler.callAPIMethod(name, args)\<close>. The
  product \<open>value * unitSeconds\<close> is the exact one here; the code rounds it to a double
  before \<open>Math.round\<close>, which gives the same number whenever the exact product is itself
  a double, as it is for every whole number of minutes, hours, days or weeks below
  \<open>2 ^ 53\<close> seconds.
\<close>

definition callAPIMethod_set_device_maintenance ::
  "env \<Rightarrow> world \<Rightarrow> int \<Rightarrow> int \<Rightarrow> int \<Rightarrow> json \<Rightarrow> api_state \<Rightarrow> json outcome" where
  "callAPIMethod_set_device_maintenance e w t0 now later args s =
     (case js_prop args ''id'' of
        Some (JNum dev) \<Rightarrow>
          (let mode = js_prop args ''mode'' in
           if mode \<noteq> Some (JStr ''ON'') \<and> mode \<noteq> Some (JStr ''OFF'')
           then (Inl (McpError InvalidParams ''Maintenance mode must be ON or OFF''), s, [])
           else if mode = Some (JStr ''ON'') then
             (case js_prop args ''duration'' of
                Some duration \<Rightarrow>
                  if \<not> is_object duration
                  then (Inl (McpError InvalidParams
                          ''Duration details are required when enabling maintenance mode''), s, [])
                  else if js_prop duration ''permanent'' = Some (JBool True)
                  then setDeviceMaintenance e w t0 now later dev ''ON'' (Some Permanent) s
                  else
                    (case js_prop duration ''value'' of
                       Some (JNum (Fin v)) \<Rightarrow>
                         if v \<le> 0
                         then (Inl (McpError InvalidParams
                                 ''Duration value must be a positive number''), s, [])
                         else
                           (let unit = (case js_prop duration ''unit'' of
                                          Some (JStr u) \<Rightarrow> toUpperCase u | _ \<Rightarrow> [])
                            in case map_of MAINTENANCE_UNIT_SECONDS unit of
                                 None \<Rightarrow>
                                   (Inl (McpError InvalidParams
                                      ''Duration unit must be one of MINUTES, HOURS, DAYS, or WEEKS''),
                                    s, [])
                               | Some per \<Rightarrow>
                                   (let seconds = js_round (v * of_int per) in
                                    if seconds < 15 * 60
                                    then (Inl (McpError InvalidParams
                                            ''Maintenance windows must be at least 15 minutes long''),
                                          s, [])
                                    else setDeviceMaintenance e w t0 now later dev ''ON''
                                           (Some (Window (Fin v) unit seconds)) s))
                     | _ \<Rightarrow>
                         (Inl (McpError InvalidParams
                            ''Duration value must be a positive number''), s, []))
              | None \<Rightarrow>
                  (Inl (McpError InvalidParams
                     ''Duration details are required when enabling maintenance mode''), s, []))
           else setDeviceMaintenance e w t0 now later dev ''OFF'' None s)
      | _ \<Rightarrow> (Inl (McpError InvalidParams ''Device ID must be a number''), s, []))"

text \<open>\<open>error.message\<close>; the SDK's \<open>McpError\<close> prefixes the message with its code.\<close>

fun error_code_string :: "error_code \<Rightarrow> string" where
  "error_code_string InvalidParams = ''-32602''"
| "error_code_string InternalError = ''-32603''"

fun error_message :: "error \<Rightarrow> string" where
  "error_message (Error m) = m"
| "error_message (McpError c m) = ''MCP error '' @ error_code_string c @ '': '' @ m"

text \<open>
  \<open>ToolHandler.routeToolCall(name, args)\<close> for this tool name: the \<open>default\<close> branch of
  the \<open>switch\<close>, inside the \<open>try\<close> whose \<open>catch\<close> rethrows every error as an
  \<open>InternalError\<close>.
\<close>

definition routeToolCall_set_device_maintenance ::
  "env \<Rightarrow> world \<Rightarrow> int \<Rightarrow> int \<Rightarrow> int \<Rightarrow> json \<Rightarrow> api_state \<Rightarrow> json outcome" where
  "routeToolCall_set_device_maintenance e w t0 now later args s =
     (case callAPIMethod_set_device_maintenance e w t0 now later args s of
        (Inl err, s', sent) \<Rightarrow>
          (Inl (McpError InternalError (''API call failed: '' @ error_message err)), s', sent)
      | (Inr d, s', sent) \<Rightarrow>
          (Inr (JObj [(''content'',
                  JArr [JObj [(''type'', JStr ''text''),
                              (''text'', JStr (json_stringify_pretty w d))]])]),
           s', sent))"

text \<open>
  The \<open>CallToolRequestSchema\<close> handler that \<open>ToolHandler.register\<close> installs, for this tool
  name; \<open>args\<close> is \<open>request.params.arguments\<close>, \<open>None\<close> when it is missing.
\<close>

definition call_tool_set_device_maintenance ::
  "env \<Rightarrow> world \<Rightarrow> int \<Rightarrow> int \<Rightarrow> int \<Rightarrow> json option \<Rightarrow> api_state \<Rightarrow> json outcome" where
  "call_tool_set_device_maintenance e w t0 now later args s =
     (case routeToolCall_set_device_maintenance e w t0 now later
             (case args of None \<Rightarrow> JObj [] | Some a \<Rightarrow> if js_truthy a then a else JObj []) s of
        (Inl (McpError c m), s', sent) \<Rightarrow> (Inl (McpError c m), s', sent)
      | (Inl (Error m), s', sent) \<Rightarrow>
          (Inl (McpError InternalError (''Tool execution failed: '' @ m)), s', sent)
      | (Inr d, s', sent) \<Rightarrow> (Inr d, s', sent))"

text \<open>A five-minute window: \<open>{ id: 1, mode: 'ON', duration: { value: 5, unit: 'minutes' } }\<close>.\<close>

definition short_window_args :: json where
  "short_window_args =
     JObj [(''id'', JNum (Fin 1)), (''mode'', JStr ''ON''),
           (''duration'', JObj [(''value'', JNum (Fin 5)), (''unit'', JStr ''minutes'')])]"

section \<open>The HTTP gateway: createHttpServer\<close>

text \<open>
  The handler of \<open>app.all('/mcp', ...)\<close>. A transport object is named by the number of
  transports constructed before it; each new transport comes with a new server instance.
  \<open>transports\<close> is the map from session identifiers to transports, \<open>sessionId_of\<close> is
  the \<open>sessionId\<close> field of each transport. What the SDK does inside
  \<open>transport.handleRequest\<close> is a parameter of the request: \<open>rq_new_sessionId\<close> is the
  value of \<open>transport.sessionId\<close> when \<open>handleRequest\<close> of a newly constructed
  transport returns (the result of \<open>randomUUID()\<close> if the SDK generated an identifier,
  \<open>None\<close> if it did not). \<open>isInit\<close> stands for the SDK's \<open>isInitializeRequest\<close>.
  The requests are those that have passed \<open>tokenAuth\<close>; each is handled to its end before
  the next event.
\<close>

datatype reply = Status400 string | Status405 | Handled nat

record gateway_state =
  transports :: "string \<Rightarrow> nat option"
  sessionId_of :: "nat \<Rightarrow> string option"
  created :: nat

record mcp_request =
  rq_method :: string
  rq_session :: "string option"
  rq_body :: "json option"
  rq_new_sessionId :: "string option"

definition initial_gateway :: gateway_state where
  "initial_gateway = \<lparr> transports = (\<lambda>k. None), sessionId_of = (\<lambda>h. None), created = 0 \<rparr>"

text \<open>A body that arrived as text is parsed; it stays the string when parsing fails.\<close>

definition parsed_body :: "world \<Rightarrow> json option \<Rightarrow> json option" where
  "parsed_body w b =
     (case b of
        Some (JStr t) \<Rightarrow> (case json_parse w t of Some j \<Rightarrow> Some j | None \<Rightarrow> Some (JStr t))
      | _ \<Rightarrow> b)"

text \<open>\<open>!body || (typeof body === 'object' && Object.keys(body).length === 0
  && !Array.isArray(body))\<close>\<close>

definition body_rejected :: "json option \<Rightarrow> bool" where
  "body_rejected b = (case b of None \<Rightarrow> True | Some j \<Rightarrow> \<not> js_truthy j \<or> j = JObj [])"

text \<open>\<open>isInitializeRequest(body)\<close> on a body that passed the test above.\<close>

definition initialize_body :: "(json \<Rightarrow> bool) \<Rightarrow> json option \<Rightarrow> bool" where
  "initialize_body isInit b = (case b of None \<Rightarrow> False | Some j \<Rightarrow> isInit j)"

text \<open>\<open>!sessionId || !transports.has(sessionId)\<close>\<close>

definition no_valid_session :: "gateway_state \<Rightarrow> string option \<Rightarrow> bool" where
  "no_valid_session st sid =
     (case sid of None \<Rightarrow> True | Some k \<Rightarrow> k = [] \<or> transports st k = None)"

text \<open>The transport that \<open>transports.get(sessionId)!\<close> yields once the test above has passed.\<close>

definition transport_of :: "gateway_state \<Rightarrow> string option \<Rightarrow> nat" where
  "transport_of st sid =
     (case sid of None \<Rightarrow> 0 | Some k \<Rightarrow> (case transports st k of None \<Rightarrow> 0 | Some h \<Rightarrow> h))"

definition mcp_endpoint ::
  "world \<Rightarrow> (json \<Rightarrow> bool) \<Rightarrow> mcp_request \<Rightarrow> gateway_state \<Rightarrow> reply \<times> gateway_state" where
  "mcp_endpoint w isInit rq st =
     (let sessionId = rq_session rq in
      if rq_method rq = ''POST'' then
        (let body = parsed_body w (rq_body rq) in
         if body_rejected body
         then (Status400 ''Request body is empty or not valid JSON'', st)
         else if initialize_body isInit body then
           (let h = created st;
                sid = rq_new_sessionId rq;
                st1 = st\<lparr> created := Suc h, sessionId_of := (sessionId_of st)(h := sid) \<rparr>
            in (Handled h,
                if truthy_str sid
                then st1\<lparr> transports := (transports st1)(or_empty sid := Some h) \<rparr>
                else st1))
         else if no_valid_session st sessionId
         then (Status400 ''Invalid or missing session ID'', st)
         else (Handled (transport_of st sessionId), st))
      else if rq_method rq = ''GET'' then
        (if no_valid_session st sessionId
         then (Status400 ''Invalid or missing session ID'', st)
         else (Handled (transport_of st sessionId), st))
      else if rq_method rq = ''DELETE'' then
        (if no_valid_session st sessionId
         then (Status400 ''Invalid or missing session ID'', st)
         else (Handled (transport_of st sessionId),
               st\<lparr> transports := (transports st)(or_empty sessionId := None) \<rparr>))
      else (Status405, st))"

text \<open>\<open>transport.onclose\<close> of transport \<open>h\<close>.\<close>

definition onclose :: "nat \<Rightarrow> gateway_state \<Rightarrow> gateway_state" where
  "onclose h st =
     (let sid = sessionId_of st h
      in if truthy_str sid then st\<lparr> transports := (transports st)(or_empty sid := None) \<rparr>
         else st)"

text \<open>What happens to the gateway: a request reaches the handler, or a transport closes.\<close>

datatype event = Request mcp_request | Closed nat

fun gateway_step ::
  "world \<Rightarrow> (json \<Rightarrow> bool) \<Rightarrow> event \<Rightarrow> gateway_state \<Rightarrow> reply option \<times> gateway_state" where
  "gateway_step w isInit (Request rq) st =
     (case mcp_endpoint w isInit rq st of (r, st') \<Rightarrow> (Some r, st'))"
| "gateway_step w isInit (Closed h) st = (None, onclose h st)"

fun gateway_run ::
  "world \<Rightarrow> (json \<Rightarrow> bool) \<Rightarrow> event list \<Rightarrow> gateway_state \<Rightarrow> reply option list \<times> gateway_state" where
  "gateway_run w isInit [] st = ([], st)"
| "gateway_run w isInit (ev # evs) st =
     (case gateway_step w isInit ev st of
        (r, st') \<Rightarrow> (case gateway_run w isInit evs st' of (rs, st'') \<Rightarrow> (r # rs, st'')))"




text \<open>Concrete requests. The initialize body carries the parameters that the protocol
  requires. \<open>is_init_example\<close> stands for the SDK's schema test on the fields it requires:
  the method is \<open>initialize\<close>, and \<open>params\<close> holds a string \<open>protocolVersion\<close>, an
  object \<open>capabilities\<close> and an object \<open>clientInfo\<close> with strings \<open>name\<close> and
  \<open>version\<close>.\<close>

definition init_body :: json where
  "init_body =
     JObj [(''jsonrpc'', JStr ''2.0''), (''id'', JNum (Fin 1)), (''method'', JStr ''initialize''),
           (''params'',
            JObj [(''protocolVersion'', JStr ''2025-03-26''), (''capabilities'', JObj []),
                  (''clientInfo'',
                   JObj [(''name'', JStr ''client''), (''version'', JStr ''1.0.0'')])])]"

fun is_string :: "json option \<Rightarrow> bool" where
  "is_string (Some (JStr t)) = True"
| "is_string j = False"

fun is_record :: "json option \<Rightarrow> bool" where
  "is_record (Some (JObj kvs)) = True"
| "is_record j = False"

definition is_init_example :: "json \<Rightarrow> bool" where
  "is_init_example j =
     (js_prop j ''method'' = Some (JStr ''initialize'')
      \<and> (case js_prop j ''params'' of
            None \<Rightarrow> False
          | Some p \<Rightarrow>
              is_string (js_prop p ''protocolVersion'') \<and> is_record (js_prop p ''capabilities'')
              \<and> (case js_prop p ''clientInfo'' of
                    None \<Rightarrow> False
                  | Some ci \<Rightarrow>
                      is_record (Some ci) \<and> is_string (js_prop ci ''name'')
                      \<and> is_string (js_prop ci ''version''))))"

definition init_request :: "string option \<Rightarrow> string option \<Rightarrow> mcp_request" where
  "init_request hdr new = \<lparr> rq_method = ''POST'', rq_session = hdr, rq_body = Some init_body, rq_new_sessionId = new \<rparr>"


definition ping_request :: "string option \<Rightarrow> mcp_request" where
  "ping_request hdr =
     \<lparr> rq_method = ''POST'', rq_session = hdr,
       rq_body = Some (JObj [(''jsonrpc'', JStr ''2.0''), (''id'', JNum (Fin 2)), (''method'', JStr ''ping'')]),
       rq_new_sessionId = None \<rparr>"

section \<open>Properties of the credential cache\<close>

lemma normalizeBaseUrl_nonempty: "u \<noteq> [] \<Longrightarrow> normalizeBaseUrl u \<noteq> []"
  by (simp add: normalizeBaseUrl_def)

lemma candidates_nonempty: "c \<in> set (getCandidateBaseUrls e) \<Longrightarrow> c \<noteq> []"
  by (auto simp: getCandidateBaseUrls_def Let_def DEFAULT_CANDIDATES_def normalizeBaseUrl_def
      split: if_splits)

lemma candidates_not_Nil: "getCandidateBaseUrls e \<noteq> []"
  by (auto simp: getCandidateBaseUrls_def Let_def DEFAULT_CANDIDATES_def)

lemma sweep_inv:
  "sweep w t s tried i cs = (r, s', sent) \<Longrightarrow> isConfigured s \<Longrightarrow> \<forall>c\<in>set cs. c \<noteq> [] \<Longrightarrow>
     cache_inv s \<Longrightarrow> cache_inv s' \<and> isConfigured s'"
proof (induction cs arbitrary: tried i r s' sent)
  case Nil
  then show ?case by simp
next
  case (Cons c cs)
  show ?case
  proof (cases "requestToken w i s c")
    case (Inl err)
    with Cons.prems obtain sent' where "sweep w t s (tried @ [c]) (Suc i) cs = (r, s', sent')"
      by (auto split: prod.splits)
    with Cons show ?thesis by auto
  next
    case (Inr tok)
    with Cons.prems show ?thesis
      by (auto simp: cache_inv_def endpoint_pinned_def store_token_def)
  qed
qed

lemma getAccessToken_inv:
  assumes "getAccessToken e w now later s = (r, s', sent)" and "cache_inv s"
  shows "cache_inv s'"
proof (cases "isConfigured s")
  case False
  with assms show ?thesis by (simp add: getAccessToken_def)
next
  case conf: True
  show ?thesis
  proof (cases "cached_token s now")
    case (Some a)
    with conf assms show ?thesis by (simp add: getAccessToken_def)
  next
    case None
    show ?thesis
    proof (cases "endpoint_pinned s")
      case False
      with conf None assms(1)
      have "sweep w later s [] 0 (getCandidateBaseUrls e) = (r, s', sent)"
        by (simp add: getAccessToken_def endpoint_pinned_def)
      from sweep_inv [OF this conf _ assms(2)] show ?thesis
        by (simp add: candidates_nonempty)
    next
      case True
      with conf None assms show ?thesis
        by (auto simp: getAccessToken_def endpoint_pinned_def cache_inv_def store_token_def
            split: sum.splits)
    qed
  qed
qed


lemma setBaseUrl_inv: "setBaseUrl u s = (r, s', sent) \<Longrightarrow> cache_inv s \<Longrightarrow> cache_inv s'"
  by (auto simp: setBaseUrl_def Let_def cache_inv_def split: if_splits)

lemma setRegion_inv: "setRegion g s = (r, s', sent) \<Longrightarrow> cache_inv s \<Longrightarrow> cache_inv s'"
  by (auto simp: setRegion_def Let_def split: option.splits if_splits dest: setBaseUrl_inv)

lemma constructor_inv: "cache_inv (constructor e)"
  by (simp add: constructor_def cache_inv_def Let_def split: prod.splits)

lemma reachable_inv: "reachable s \<Longrightarrow> cache_inv s"
  by (induction rule: reachable.induct)
     (auto intro: constructor_inv getAccessToken_inv setBaseUrl_inv setRegion_inv)



lemma token_request_url [simp]: "req_url (token_request s c) = c @ ''/ws/oauth/token''"
  by (simp add: token_request_def)

lemma example_acquire:
  "getAccessToken example_env example_world 0 1000 (constructor example_env) =
     (Inr ''tok'', cached_state,
      map (token_request (constructor example_env)) (take 3 DEFAULT_CANDIDATES))"
  by (simp add: getAccessToken_def example_env_def example_world_def constructor_def Let_def
      cached_token_def getCandidateBaseUrls_def DEFAULT_CANDIDATES_def requestToken_def
      token_request_def response_ok_def store_token_def cached_state_def trim_def is_js_space_def toLowerCase_def)

lemma reachable_cached_state: "reachable cached_state"
  using reachable_getAccessToken [OF reachable_constructor example_acquire] .

text \<open>
  C2. In every reachable state that holds a non-empty cached token with expiry \<open>x\<close>, a
  call at a time \<open>now\<close> (milliseconds since the epoch) with \<open>now < x - 300000\<close> returns
  the cached token, leaves the state as it is and sends no request. A call with
  \<open>x - 300000 \<le> now\<close> does not answer from the cache: it sends a token request to the
  pinned endpoint and returns what that request yields.
\<close>

theorem cached_token_reuse:
  assumes "reachable s" and "accessToken s = Some a" and "a \<noteq> []"
    and "tokenExpiry s = Some x" and "0 \<le> now"
  shows "(now < x - 300000 \<longrightarrow> getAccessToken e w now later s = (Inr a, s, []))
       \<and> (x - 300000 \<le> now \<longrightarrow>
            (\<exists>b. baseUrl s = Some b \<and>
               getAccessToken e w now later s =
                 (case requestToken w 0 s b of
                    Inl err \<Rightarrow> (Inl err, s, [token_request s b])
                  | Inr tok \<Rightarrow> (Inr (access_token tok), store_token later tok s,
                                [token_request s b]))))"
proof -
  from reachable_inv [OF assms(1)] assms(2)
  have conf: "isConfigured s" and pin: "endpoint_pinned s"
    by (simp_all add: cache_inv_def)
  from pin obtain b where b: "baseUrl s = Some b" "b \<noteq> []"
    by (cases "baseUrl s") (auto simp: endpoint_pinned_def)
  have fresh: "now < x - 300000 \<Longrightarrow> cached_token s now = Some a"
    using assms by (simp add: cached_token_def)
  have stale: "x - 300000 \<le> now \<Longrightarrow> cached_token s now = None"
    using assms by (simp add: cached_token_def)
  show ?thesis
  proof (intro conjI impI)
    assume "now < x - 300000"
    with fresh conf show "getAccessToken e w now later s = (Inr a, s, [])"
      by (simp add: getAccessToken_def)
  next
    assume "x - 300000 \<le> now"
    with stale conf pin b
    show "\<exists>b. baseUrl s = Some b \<and>
               getAccessToken e w now later s =
                 (case requestToken w 0 s b of
                    Inl err \<Rightarrow> (Inl err, s, [token_request s b])
                  | Inr tok \<Rightarrow> (Inr (access_token tok), store_token later tok s,
                                [token_request s b]))"
      by (simp add: getAccessToken_def endpoint_pinned_def split: sum.splits)
  qed
qed

theorem cached_token_reuse_witness:
  "reachable cached_state \<and> (0::int) \<le> 5000 \<and> (5000::int) < 3601000 - 300000
   \<and> getAccessToken example_env offline_world 5000 6000 cached_state
       = (Inr ''tok'', cached_state, [])
   \<and> getAccessToken example_env offline_world 3301000 3301001 cached_state
       = (Inl (Error ''fetch failed''), cached_state,
          [token_request cached_state ''https://eu.ninjarmm.com''])"
proof -
  have a: "accessToken cached_state = Some ''tok''" and x: "tokenExpiry cached_state = Some 3601000"
    and b: "baseUrl cached_state = Some ''https://eu.ninjarmm.com''"
    by (simp_all add: cached_state_def)
  have h1: "getAccessToken example_env offline_world 5000 6000 cached_state
              = (Inr ''tok'', cached_state, [])"
    using cached_token_reuse [OF reachable_cached_state a _ x,
        of 5000 example_env offline_world 6000]
    by simp
  have h2: "getAccessToken example_env offline_world 3301000 3301001 cached_state
              = (Inl (Error ''fetch failed''), cached_state,
                 [token_request cached_state ''https://eu.ninjarmm.com''])"
    using cached_token_reuse [OF reachable_cached_state a _ x,
        of 3301000 example_env offline_world 3301001]
    by (simp add: b requestToken_def offline_world_def example_world_def)
  from reachable_cached_state h1 h2 show ?thesis by simp
qed

text \<open>
  Once the endpoint is pinned and no call is in the candidate loop, token acquisition
  leaves it pinned: whatever calls start and whatever their requests yield, in any
  interleaving, the endpoint stays the same and every request goes to it.
\<close>

lemma sys_run_append: "sys_run (xs @ ys) sys = sys_run ys (sys_run xs sys)"
  by (induction xs arbitrary: sys) auto






lemma example_candidates: "getCandidateBaseUrls example_env = DEFAULT_CANDIDATES"
  by (simp add: getCandidateBaseUrls_def example_env_def trim_def DEFAULT_CANDIDATES_def)

lemma constructor_example:
  "constructor example_env =
     \<lparr> baseUrl = None, clientId = ''id'', clientSecret = ''secret'', accessToken = None,
       tokenExpiry = None, isConfigured = True, baseUrlExplicit = False \<rparr>"
  by (simp add: constructor_def example_env_def Let_def toLowerCase_def)



lemma affix_match_iff:
  "(length p + length q < length n \<and> take (length p) n = p
      \<and> drop (length n - length q) n = q
      \<and> list_all P (take (length n - length p - length q) (drop (length p) n)))
   \<longleftrightarrow> (\<exists>sub. sub \<noteq> [] \<and> list_all P sub \<and> n = p @ sub @ q)"
  (is "?L \<longleftrightarrow> ?R")
proof
  assume a: ?L
  let ?m = "take (length n - length p - length q) (drop (length p) n)"
  from a have len: "length p + length q < length n" by simp
  have "n = take (length p) n @ drop (length p) n" by simp
  also have "drop (length p) n = ?m @ drop (length n - length p - length q) (drop (length p) n)"
    by (rule append_take_drop_id [symmetric])
  also have "drop (length n - length p - length q) (drop (length p) n)
             = drop (length n - length q) n"
    using len by (simp add: add.commute)
  finally have "n = p @ ?m @ q" using a by simp
  moreover from len have "?m \<noteq> []" by simp
  ultimately show ?R using a by blast
next
  assume ?R
  then obtain sub where "sub \<noteq> []" "list_all P sub" "n = p @ sub @ q" by blast
  then show ?L by simp
qed

lemma ALLOWED_DOMAIN_PATTERN_iff:
  "ALLOWED_DOMAIN_PATTERN n \<longleftrightarrow>
     (\<exists>sub. sub \<noteq> [] \<and> list_all is_word_or_dash sub \<and> n = ''https://'' @ sub @ ''.ninjarmm.com'')"
  unfolding ALLOWED_DOMAIN_PATTERN_def Let_def by (rule affix_match_iff)

lemma allow_listed_iff:
  "allow_listed n \<longleftrightarrow> n \<in> set (map snd REGION_MAP) \<or> ALLOWED_DOMAIN_PATTERN n"
  unfolding allow_listed_def ALLOWED_DOMAIN_PATTERN_iff by (simp add: REGION_MAP_def)

text \<open>
  C4. \<open>setBaseUrl\<close> throws exactly when the normalized URL is not on the allow-list; it
  then leaves the stored endpoint, token and expiry as they are. It never sends a request.
  \<open>setRegion\<close> either throws, leaving the state as it is, or sets the allow-listed URL
  that the region map gives for the lower-cased key; it sends no request either.
\<close>

theorem setBaseUrl_allow_list:
  "(isl (fst (setBaseUrl u s)) \<longleftrightarrow> \<not> allow_listed (normalizeBaseUrl u))
   \<and> (\<not> allow_listed (normalizeBaseUrl u) \<longrightarrow>
        setBaseUrl u s =
          (Inl (Error (''Invalid base URL: '' @ normalizeBaseUrl u
             @ ''. URL must be a known NinjaRMM region or match https://<subdomain>.ninjarmm.com'')),
           s, []))
   \<and> snd (snd (setBaseUrl u s)) = []
   \<and> (case setRegion g s of
        (Inl err, s', sent) \<Rightarrow> s' = s \<and> sent = []
      | (Inr x, s', sent) \<Rightarrow>
          sent = [] \<and> (\<exists>n. (toLowerCase g, n) \<in> set REGION_MAP \<and> allow_listed n
                            \<and> setBaseUrl n s = (Inr x, s', [])))"
proof -
  note al = allow_listed_iff
  have 1: "isl (fst (setBaseUrl u s)) \<longleftrightarrow> \<not> allow_listed (normalizeBaseUrl u)" for u
    by (simp add: al setBaseUrl_def Let_def)
  have 2: "setBaseUrl u s =
          (Inl (Error (''Invalid base URL: '' @ normalizeBaseUrl u
             @ ''. URL must be a known NinjaRMM region or match https://<subdomain>.ninjarmm.com'')),
           s, [])" if "\<not> allow_listed (normalizeBaseUrl u)" for u
    using that by (simp add: al setBaseUrl_def Let_def)
  have 3: "snd (snd (setBaseUrl u s)) = []" for u
    by (simp add: setBaseUrl_def Let_def)
  have 4: "case setRegion g s of
        (Inl err, s', sent) \<Rightarrow> s' = s \<and> sent = []
      | (Inr x, s', sent) \<Rightarrow>
          sent = [] \<and> (\<exists>n. (toLowerCase g, n) \<in> set REGION_MAP \<and> allow_listed n
                            \<and> setBaseUrl n s = (Inr x, s', []))"
  proof (cases "map_of REGION_MAP (toLowerCase g)")
    case None
    then show ?thesis
      by (auto simp: setRegion_def REGION_MAP_get_def Let_def setBaseUrl_def normalizeBaseUrl_def
          has_http_scheme_def ALLOWED_DOMAIN_PATTERN_def REGION_MAP_def toLowerCase_def
          split: if_splits)
  next
    case (Some n)
    then have mem: "(toLowerCase g, n) \<in> set REGION_MAP" by (rule map_of_SomeD)
    then have n: "normalizeBaseUrl n = n" "n \<noteq> []" "n \<in> set (map snd REGION_MAP)"
      by (auto simp: REGION_MAP_def normalizeBaseUrl_def has_http_scheme_def toLowerCase_def
          lower_char_def is_upper_ascii_def)
    with Some mem show ?thesis
      by (auto simp: setRegion_def REGION_MAP_get_def Let_def setBaseUrl_def al)
  qed
  from 1 2 3 4 show ?thesis by blast
qed

theorem setBaseUrl_allow_list_witness:
  "\<not> allow_listed (normalizeBaseUrl ''https://evil.example.com'')
   \<and> setBaseUrl ''https://evil.example.com'' cached_state =
        (Inl (Error (''Invalid base URL: https://evil.example.com''
           @ ''. URL must be a known NinjaRMM region or match https://<subdomain>.ninjarmm.com'')),
         cached_state, [])
   \<and> allow_listed (normalizeBaseUrl ''https://eu.ninjarmm.com'')
   \<and> \<not> isl (fst (setBaseUrl ''https://eu.ninjarmm.com'' cached_state))"
proof -
  have n1: "normalizeBaseUrl ''https://evil.example.com'' = ''https://evil.example.com''"
    and n2: "normalizeBaseUrl ''https://eu.ninjarmm.com'' = ''https://eu.ninjarmm.com''"
    by (simp_all add: normalizeBaseUrl_def has_http_scheme_def toLowerCase_def lower_char_def
        is_upper_ascii_def)
  have bad: "\<not> allow_listed (normalizeBaseUrl ''https://evil.example.com'')"
    by (simp add: n1 allow_listed_iff REGION_MAP_def ALLOWED_DOMAIN_PATTERN_def)
  have good: "allow_listed (normalizeBaseUrl ''https://eu.ninjarmm.com'')"
    by (simp add: n2 allow_listed_iff REGION_MAP_def)
  note T = setBaseUrl_allow_list [of "''https://evil.example.com''" cached_state "''eu''"]
  note U = setBaseUrl_allow_list [of "''https://eu.ninjarmm.com''" cached_state "''eu''"]
  from T bad have "setBaseUrl ''https://evil.example.com'' cached_state =
        (Inl (Error (''Invalid base URL: '' @ normalizeBaseUrl ''https://evil.example.com''
           @ ''. URL must be a known NinjaRMM region or match https://<subdomain>.ninjarmm.com'')),
         cached_state, [])"
    by blast
  moreover from U good have "\<not> isl (fst (setBaseUrl ''https://eu.ninjarmm.com'' cached_state))"
    by blast
  ultimately show ?thesis using bad good by (simp add: n1)
qed








section \<open>Properties of the upstream client\<close>

lemma cached_call:
  "getAccessToken example_env w 5000 6000 cached_state = (Inr ''tok'', cached_state, [])"
  by (simp add: getAccessToken_def cached_state_def cached_token_def)

text \<open>
  C8. When \<open>makeRequest\<close> has its token and the request is answered with a status from
  200 to 299, it returns \<open>{ success: true }\<close> whenever the method is DELETE and the
  status 204 (the body is then not read), or the body is empty, or consists of white space
  only, or \<open>JSON.parse\<close> rejects it. No error is thrown in any of these cases.
\<close>

theorem makeRequest_success_marker:
  assumes "getAccessToken e w now later s = (Inr token, s', sent)"
    and "fetch w (length sent) (api_request w (request_base s') token endpoint m bdy) = Inr r"
    and "response_ok r"
    and "(m = ''DELETE'' \<and> resp_status r = 204) \<or> resp_text r = []
         \<or> trim (resp_text r) = [] \<or> json_parse w (resp_text r) = None"
  shows "makeRequest e w now later endpoint m bdy s =
           (Inr success_marker, s', sent @ [api_request w (request_base s') token endpoint m bdy])"
  using assms by (auto simp: makeRequest_def Let_def)

theorem makeRequest_success_marker_witness:
  "makeRequest example_env
     (answering \<lparr> resp_status = 200, resp_statusText = ''OK'', resp_text = ''  '' \<rparr>)
     5000 6000 ''/v2/devices'' ''GET'' None cached_state
   = (Inr success_marker, cached_state,
      [\<lparr> req_url = ''https://eu.ninjarmm.com/v2/devices'', req_method = ''GET'',
         req_headers = [(''Authorization'', ''Bearer tok''), (''Accept'', ''*/*'')],
         req_body = NoBody \<rparr>])
   \<and> makeRequest example_env
     (answering \<lparr> resp_status = 200, resp_statusText = ''OK'', resp_text = ''<html>'' \<rparr>)
     5000 6000 ''/v2/devices'' ''GET'' None cached_state
   = (Inr success_marker, cached_state,
      [\<lparr> req_url = ''https://eu.ninjarmm.com/v2/devices'', req_method = ''GET'',
         req_headers = [(''Authorization'', ''Bearer tok''), (''Accept'', ''*/*'')],
         req_body = NoBody \<rparr>])"
proof -
  let ?r1 = "\<lparr> resp_status = 200, resp_statusText = ''OK'', resp_text = ''  '' \<rparr>"
  let ?r2 = "\<lparr> resp_status = 200, resp_statusText = ''OK'', resp_text = ''<html>'' \<rparr>"
  have 1: "fetch (answering r) (length ([] :: http_request list)) q = Inr r" for r q
    by (simp add: answering_def)
  have ok: "response_ok ?r1" "response_ok ?r2" by (simp_all add: response_ok_def)
  have t1: "trim (resp_text ?r1) = []" by (simp add: trim_def is_js_space_def)
  have t2: "json_parse (answering ?r2) (resp_text ?r2) = None"
    by (simp add: answering_def example_world_def)
  from makeRequest_success_marker [where endpoint = "''/v2/devices''" and m = "''GET''" and bdy = None,
      OF cached_call 1 ok(1)] t1
    makeRequest_success_marker [where endpoint = "''/v2/devices''" and m = "''GET''" and bdy = None,
      OF cached_call 1 ok(2)] t2
  show ?thesis
    by (simp add: api_request_def request_base_def cached_state_def)
qed

text \<open>
  C9, as the code has it. When \<open>makeRequest\<close> has its token and the request is answered
  with a status outside 200 to 299, it throws an \<open>Error\<close> whose message carries the
  status code, the status text and the whole response body, not a truncated form of it.
\<close>

theorem makeRequest_upstream_error:
  assumes "getAccessToken e w now later s = (Inr token, s', sent)"
    and "fetch w (length sent) (api_request w (request_base s') token endpoint m bdy) = Inr r"
    and "\<not> response_ok r"
  shows "makeRequest e w now later endpoint m bdy s =
           (Inl (Error (''API request failed: '' @ show_nat (resp_status r) @ '' ''
                        @ resp_statusText r @ '' - '' @ resp_text r)),
            s', sent @ [api_request w (request_base s') token endpoint m bdy])"
  using assms by (auto simp: makeRequest_def Let_def)

theorem makeRequest_upstream_error_witness:
  "makeRequest example_env
     (answering \<lparr> resp_status = 404, resp_statusText = ''Not Found'', resp_text = ''no such device'' \<rparr>)
     5000 6000 ''/v2/device/7'' ''GET'' None cached_state
   = (Inl (Error ''API request failed: 404 Not Found - no such device''), cached_state,
      [\<lparr> req_url = ''https://eu.ninjarmm.com/v2/device/7'', req_method = ''GET'',
         req_headers = [(''Authorization'', ''Bearer tok''), (''Accept'', ''*/*'')],
         req_body = NoBody \<rparr>])"
proof -
  let ?r = "\<lparr> resp_status = 404, resp_statusText = ''Not Found'', resp_text = ''no such device'' \<rparr>"
  have 1: "fetch (answering r) (length ([] :: http_request list)) q = Inr r" for r q
    by (simp add: answering_def)
  have nok: "\<not> response_ok ?r" by (simp add: response_ok_def)
  have sn: "show_nat 404 = ''404''" by (simp add: show_nat.simps)
  from makeRequest_upstream_error [where endpoint = "''/v2/device/7''" and m = "''GET''" and bdy = None,
      OF cached_call 1 nok]
  show ?thesis
    by (simp add: api_request_def request_base_def cached_state_def sn)
qed

text \<open>
  A response body of 100000 characters appears in the error message in full.
\<close>

theorem upstream_error_body_not_truncated:
  "makeRequest example_env
     (answering \<lparr> resp_status = 500, resp_statusText = ''Server Error'', resp_text = long_body \<rparr>)
     5000 6000 ''/v2/devices'' ''GET'' None cached_state
   = (Inl (Error (''API request failed: 500 Server Error - '' @ long_body)), cached_state,
      [\<lparr> req_url = ''https://eu.ninjarmm.com/v2/devices'', req_method = ''GET'',
         req_headers = [(''Authorization'', ''Bearer tok''), (''Accept'', ''*/*'')],
         req_body = NoBody \<rparr>])
   \<and> length long_body = 100000"
proof -
  have sn: "show_nat 500 = ''500''" by (simp add: show_nat.simps)
  have "length long_body = 100000" by (simp add: long_body_def)
  moreover have "makeRequest example_env
     (answering \<lparr> resp_status = 500, resp_statusText = ''Server Error'', resp_text = long_body \<rparr>)
     5000 6000 ''/v2/devices'' ''GET'' None cached_state
   = (Inl (Error (''API request failed: 500 Server Error - '' @ long_body)), cached_state,
      [\<lparr> req_url = ''https://eu.ninjarmm.com/v2/devices'', req_method = ''GET'',
         req_headers = [(''Authorization'', ''Bearer tok''), (''Accept'', ''*/*'')],
         req_body = NoBody \<rparr>])"
    by (simp add: makeRequest_def cached_call answering_def response_ok_def sn api_request_def
        request_base_def) (simp add: cached_state_def)
  ultimately show ?thesis by simp
qed

section \<open>Properties of the set_device_maintenance tool\<close>

lemma toUpperCase_minutes: "toUpperCase ''minutes'' = ''MINUTES''"
  by code_simp

text \<open>
  What \<open>callAPIMethod\<close> does with a window that is not permanent: it passes the window on
  when the value is a finite positive number, the upper-cased unit is one of the four
  known ones and the rounded length is at least 900 seconds, and throws
  \<open>InvalidParams\<close> without sending anything otherwise. Mode \<open>OFF\<close> issues the DELETE.
\<close>

lemma call_tool_errors_are_internal:
  "call_tool_set_device_maintenance e w t0 now later args s = (Inl err, s', sent) \<Longrightarrow>
   \<exists>m. err = McpError InternalError m"
  by (auto simp: call_tool_set_device_maintenance_def routeToolCall_set_device_maintenance_def
      split: prod.splits sum.splits error.splits)

lemma callAPIMethod_window_accepted:
  assumes "js_prop args ''id'' = Some (JNum dev)" and "js_prop args ''mode'' = Some (JStr ''ON'')"
    and "js_prop args ''duration'' = Some d" and "is_object d"
    and "js_prop d ''permanent'' \<noteq> Some (JBool True)"
    and "js_prop d ''value'' = Some (JNum (Fin v))" and "0 < v"
    and "js_prop d ''unit'' = Some (JStr u)"
    and "map_of MAINTENANCE_UNIT_SECONDS (toUpperCase u) = Some per"
    and "15 * 60 \<le> js_round (v * of_int per)"
  shows "callAPIMethod_set_device_maintenance e w t0 now later args s =
           setDeviceMaintenance e w t0 now later dev ''ON''
             (Some (Window (Fin v) (toUpperCase u) (js_round (v * of_int per)))) s"
  using assms by (simp add: callAPIMethod_set_device_maintenance_def Let_def)

lemma callAPIMethod_window_rejected:
  assumes "js_prop args ''id'' = Some (JNum dev)" and "js_prop args ''mode'' = Some (JStr ''ON'')"
    and "js_prop args ''duration'' = Some d" and "is_object d"
    and "js_prop d ''permanent'' \<noteq> Some (JBool True)"
    and "\<not> (\<exists>v u per. js_prop d ''value'' = Some (JNum (Fin v)) \<and> 0 < v
            \<and> js_prop d ''unit'' = Some (JStr u)
            \<and> map_of MAINTENANCE_UNIT_SECONDS (toUpperCase u) = Some per
            \<and> 15 * 60 \<le> js_round (v * of_int per))"
  shows "\<exists>m. callAPIMethod_set_device_maintenance e w t0 now later args s =
           (Inl (McpError InvalidParams m), s, [])"
  using assms
  by (auto simp: callAPIMethod_set_device_maintenance_def Let_def MAINTENANCE_UNIT_SECONDS_def
      split: option.splits json.splits js_number.splits)

lemma callAPIMethod_off:
  assumes "js_prop args ''id'' = Some (JNum dev)" and "js_prop args ''mode'' = Some (JStr ''OFF'')"
  shows "callAPIMethod_set_device_maintenance e w t0 now later args s =
           makeRequest e w now later (''/v2/device/'' @ num_to_string w dev @ ''/maintenance'')
             ''DELETE'' None s"
  using assms by (simp add: callAPIMethod_set_device_maintenance_def setDeviceMaintenance_def)

text \<open>
  C10 at a window of five minutes. \<open>callAPIMethod\<close> throws \<open>InvalidParams\<close> and sends
  nothing, but the \<open>catch\<close> of \<open>routeToolCall\<close> rethrows it as \<open>InternalError\<close>, and that is
  what the tool invocation is answered with.
\<close>

theorem short_window_rejected_as_internal_error:
  "callAPIMethod_set_device_maintenance example_env offline_world 0 5000 6000 short_window_args
     cached_state
   = (Inl (McpError InvalidParams ''Maintenance windows must be at least 15 minutes long''),
      cached_state, [])
   \<and> call_tool_set_device_maintenance example_env offline_world 0 5000 6000
       (Some short_window_args) cached_state
   = (Inl (McpError InternalError
        ''API call failed: MCP error -32602: Maintenance windows must be at least 15 minutes long''),
      cached_state, [])"
proof -
  have 1: "callAPIMethod_set_device_maintenance example_env offline_world 0 5000 6000
     short_window_args cached_state
   = (Inl (McpError InvalidParams ''Maintenance windows must be at least 15 minutes long''),
      cached_state, [])"
    by (simp add: callAPIMethod_set_device_maintenance_def short_window_args_def toUpperCase_minutes
        MAINTENANCE_UNIT_SECONDS_def js_round_def Let_def)
  then show ?thesis
    by (simp add: call_tool_set_device_maintenance_def routeToolCall_set_device_maintenance_def
        short_window_args_def [symmetric])
       (simp add: short_window_args_def)
qed

section \<open>Properties of concurrent calls\<close>

text \<open>
  The task model agrees with \<open>getAccessToken\<close>: one call alone, resumed with the answers the
  world gives, yields the result, the state and the requests of the function above.
\<close>

lemma drive_sweep:
  "drive w t i (AwaitingCandidate tried c cs) s =
     (case sweep w t s (butlast tried) i (c # cs) of (r, s', sent) \<Rightarrow> (r, s', tl sent))"
  if "tried \<noteq> [] \<and> last tried = c"
  using that
proof (induction cs arbitrary: tried c i)
  case Nil
  then show ?case
    by (cases "requestToken w i s c") (auto simp: snoc_eq_iff_butlast)
next
  case (Cons c' cs)
  show ?case
  proof (cases "requestToken w i s c")
    case (Inr tok)
    then show ?thesis by simp
  next
    case (Inl err)
    have "drive w t (Suc i) (AwaitingCandidate (tried @ [c']) c' cs) s =
      (case sweep w t s (butlast (tried @ [c'])) (Suc i) (c' # cs) of (r, s', sent) \<Rightarrow> (r, s', tl sent))"
      by (rule Cons.IH) simp
    moreover from Cons.prems have "butlast tried @ [c] = tried"
      by (metis append_butlast_last_id)
    ultimately show ?thesis using Inl
      by (auto split: prod.splits sum.splits)
  qed
qed

lemma getAccessToken_as_task:
  "getAccessToken e w now later s =
     (case start_getAccessToken e now s of
        (tk, sent) \<Rightarrow>
          (case drive w later 0 tk s of (r, s', sent') \<Rightarrow> (r, s', sent @ sent')))"
proof (cases "getCandidateBaseUrls e")
  case Nil
  with candidates_not_Nil show ?thesis by simp
next
  case (Cons c cs)
  have "drive w later 0 (AwaitingCandidate [c] c cs) s =
     (case sweep w later s [] 0 (c # cs) of (r, s', sent) \<Rightarrow> (r, s', tl sent))"
    using drive_sweep [of "[c]" c w later 0 cs s] by simp
  with Cons show ?thesis
    by (auto simp: getAccessToken_def start_getAccessToken_def
        split: option.splits sum.splits prod.splits)
qed

text \<open>
  A call in flight depends on the object only through the credentials, which nothing
  changes: what it has sent and what it has come to is a function of its own answers.
\<close>

lemma resume_creds:
  "resume_getAccessToken out t tk s = (tk', s', sent) \<Longrightarrow>
   clientId s' = clientId s \<and> clientSecret s' = clientSecret s"
  by (cases tk) (auto simp: store_token_def split: sum.splits list.splits)

lemma setBaseUrl_creds:
  "setBaseUrl u s = (r, s', sent) \<Longrightarrow> clientId s' = clientId s \<and> clientSecret s' = clientSecret s"
  by (auto simp: setBaseUrl_def Let_def split: if_splits)

lemma setRegion_creds:
  "setRegion g s = (r, s', sent) \<Longrightarrow> clientId s' = clientId s \<and> clientSecret s' = clientSecret s"
  by (auto simp: setRegion_def Let_def split: option.splits if_splits dest: setBaseUrl_creds)

lemma token_request_creds:
  "clientId s' = clientId s \<Longrightarrow> clientSecret s' = clientSecret s \<Longrightarrow>
   token_request s' c = token_request s c"
  by (simp add: token_request_def)

lemma takeWhile_length_all:
  assumes "length (takeWhile P xs) = length xs"
  shows "\<forall>x\<in>set xs. P x"
proof -
  have "takeWhile P xs = take (length (takeWhile P xs)) xs" by (rule takeWhile_eq_take)
  with assms have "takeWhile P xs = xs" by simp
  then show ?thesis by (simp add: takeWhile_eq_all_conv)
qed

lemma takeWhile_isl_snoc:
  "length (takeWhile isl (outs @ [out])) =
     (if length (takeWhile isl outs) < length outs then length (takeWhile isl outs)
      else if isl out then Suc (length outs) else length outs)"
proof (cases "\<forall>x\<in>set outs. isl x")
  case True
  then have t: "length (takeWhile isl outs) = length outs"
    by (simp add: takeWhile_eq_all_conv [THEN iffD2])
  from True have "takeWhile isl (outs @ [out]) = outs @ takeWhile isl [out]"
    by (simp add: takeWhile_append2)
  then have "length (takeWhile isl (outs @ [out])) = length outs + (if isl out then 1 else 0)"
    by simp
  with t show ?thesis by simp
next
  case False
  then obtain x where "x \<in> set outs" "\<not> isl x" by blast
  then have "takeWhile isl (outs @ [out]) = takeWhile isl outs"
    by (simp add: takeWhile_append1)
  moreover have "length (takeWhile isl outs) < length outs"
  proof (rule ccontr)
    assume "\<not> length (takeWhile isl outs) < length outs"
    with length_takeWhile_le [of isl outs] have "length (takeWhile isl outs) = length outs"
      by simp
    from takeWhile_length_all [OF this] False show False by simp
  qed
  ultimately show ?thesis by simp
qed

lemma sweep_view_step:
  assumes cs: "cs \<noteq> []"
    and creds: "clientId s' = clientId s" "clientSecret s' = clientSecret s"
    and v: "sweep_view s cs outs = (tk, rq)"
    and r: "resume_getAccessToken out t tk s' = (tk', s'', snt)"
  shows "sweep_view s cs (outs @ [out]) = (tk', rq @ snt)"
proof -
  let ?f = "length (takeWhile isl outs)"
  have fle: "?f \<le> length outs" by (rule length_takeWhile_le)
  show ?thesis
  proof (cases "length cs \<le> ?f")
    case True
    with v have tk: "tk = Done (Inl (Error
              (''Failed to acquire OAuth token: no candidate base URL succeeded. Tried: ''
               @ join_with '', '' cs)))" and rq: "rq = map (token_request s) (take (Suc ?f) cs)"
      by (auto simp: sweep_view_def Let_def)
    from True fle have "length cs \<le> length (takeWhile isl (outs @ [out]))"
      by (auto simp: takeWhile_isl_snoc)
    with tk rq r True show ?thesis
      by (auto simp: sweep_view_def Let_def)
  next
    case small: False
    show ?thesis
    proof (cases "?f < length outs")
      case True
      then have eq: "length (takeWhile isl (outs @ [out])) = ?f"
        by (simp add: takeWhile_isl_snoc)
      from True have nth: "(outs @ [out]) ! ?f = outs ! ?f" by (simp add: nth_append)
      from small True v have "is_done tk"
        by (auto simp: sweep_view_def Let_def split: sum.splits)
      then obtain res where "tk = Done res" by (cases tk) auto
      with r have "tk' = tk" "snt = []" by auto
      with v small True eq nth show ?thesis
        by (auto simp: sweep_view_def Let_def)
    next
      case False
      with fle have all: "?f = length outs" by simp
      with small v have tk: "tk = AwaitingCandidate (take (Suc ?f) cs) (cs ! ?f) (drop (Suc ?f) cs)"
        and rq: "rq = map (token_request s) (take (Suc ?f) cs)"
        by (auto simp: sweep_view_def Let_def)
      from small have lt: "?f < length cs" by simp
      show ?thesis
      proof (cases out)
        case (Inr tok)
        with all have eq: "length (takeWhile isl (outs @ [out])) = ?f"
          by (simp add: takeWhile_isl_snoc)
        from all Inr have nth: "(outs @ [out]) ! ?f = Inr tok" by (simp add: nth_append)
        from Inr tk r have "tk' = Done (Inr (access_token tok))" "snt = []" by auto
        with small all eq nth rq show ?thesis
          by (auto simp: sweep_view_def Let_def)
      next
        case (Inl err)
        with all have eq: "length (takeWhile isl (outs @ [out])) = Suc ?f"
          by (simp add: takeWhile_isl_snoc)
        show ?thesis
        proof (cases "drop (Suc ?f) cs")
          case Nil
          then have full: "length cs \<le> Suc ?f" by simp
          with lt have "take (Suc ?f) cs = cs" by simp
          with Inl tk r Nil have "tk' = Done (Inl (Error
              (''Failed to acquire OAuth token: no candidate base URL succeeded. Tried: ''
               @ join_with '', '' cs)))" "snt = []" by auto
          with full eq rq show ?thesis
            by (auto simp: sweep_view_def Let_def)
        next
          case (Cons c' cs')
          then have lt2: "Suc ?f < length cs"
            by (metis drop_eq_Nil linorder_not_le list.distinct(1))
          from Cons lt2 have c': "c' = cs ! Suc ?f" and cs': "cs' = drop (Suc (Suc ?f)) cs"
            by (metis Cons_nth_drop_Suc list.inject)+
          from Inl tk r Cons have tk': "tk' = AwaitingCandidate (take (Suc ?f) cs @ [c']) c' cs'"
            and snt: "snt = [token_request s' c']" by auto
          from lt2 have t2: "take (Suc (Suc ?f)) cs = take (Suc ?f) cs @ [cs ! Suc ?f]"
            by (rule take_Suc_conv_app_nth)
          have lhs: "sweep_view s cs (outs @ [out]) =
              (AwaitingCandidate (take (Suc (Suc ?f)) cs) (cs ! Suc ?f) (drop (Suc (Suc ?f)) cs),
               map (token_request s) (take (Suc (Suc ?f)) cs))"
            unfolding sweep_view_def Let_def eq using lt2 all by simp
          have tr: "token_request s' c = token_request s c" for c
            using creds by (rule token_request_creds)
          show ?thesis
            unfolding lhs tk' snt rq t2 tr c' cs' by simp
        qed
      qed
    qed
  qed
qed

lemma explicit_view_step:
  assumes creds: "clientId s' = clientId s" "clientSecret s' = clientSecret s"
    and v: "explicit_view s outs = (tk, rq)"
    and r: "resume_getAccessToken out t tk s' = (tk', s'', snt)"
  shows "explicit_view s (outs @ [out]) = (tk', rq @ snt)"
  using assms
  by (cases outs; cases out)
     (auto simp: explicit_view_def split: sum.splits list.splits)

lemma filter_tag:
  "map snd (filter (\<lambda>p. fst p = i) (map (Pair j) sent)) = (if j = i then sent else [])"
  by (induction sent) auto

lemma tagged_append:
  "map snd (filter (\<lambda>p. fst p = i) (L @ map (Pair j) sent))
   = map snd (filter (\<lambda>p. fst p = i) L) @ (if j = i then sent else [])"
  by (simp only: filter_append map_append filter_tag)

lemma view_step:
  assumes step: "\<forall>outs tk rq out t s' tk' s'' snt.
      clientId s' = clientId s \<and> clientSecret s' = clientSecret s \<and> V outs = (tk, rq) \<and>
      resume_getAccessToken out t tk s' = (tk', s'', snt) \<longrightarrow> V (outs @ [out]) = (tk', rq @ snt)"
    and creds: "clientId (sys_state sys) = clientId s" "clientSecret (sys_state sys) = clientSecret s"
    and i: "i < length (sys_tasks sys)"
    and v: "V outs = (sys_tasks sys ! i, requests_of i sys)"
  shows "clientId (sys_state (sys_step x sys)) = clientId s
       \<and> clientSecret (sys_state (sys_step x sys)) = clientSecret s
       \<and> i < length (sys_tasks (sys_step x sys))
       \<and> V (outs @ outcomes_for i [x])
           = (sys_tasks (sys_step x sys) ! i, requests_of i (sys_step x sys))"
proof (cases x)
  case (Call e now)
  obtain tk sent where st: "start_getAccessToken e now (sys_state sys) = (tk, sent)"
    by (cases "start_getAccessToken e now (sys_state sys)") auto
  with Call have "sys_sent (sys_step x sys) = sys_sent sys @ map (Pair (length (sys_tasks sys))) sent"
    by simp
  with i have "requests_of i (sys_step x sys) = requests_of i sys"
    by (simp only: requests_of_def tagged_append) simp
  with Call st creds i v show ?thesis
    by (simp add: nth_append)
next
  case (Settle j out t)
  show ?thesis
  proof (cases "j < length (sys_tasks sys)")
    case False
    with Settle creds i v show ?thesis by auto
  next
    case True
    obtain tk' s' snt where r:
      "resume_getAccessToken out t (sys_tasks sys ! j) (sys_state sys) = (tk', s', snt)"
      by (cases "resume_getAccessToken out t (sys_tasks sys ! j) (sys_state sys)") auto
    from resume_creds [OF r] creds have c': "clientId s' = clientId s" "clientSecret s' = clientSecret s"
      by simp_all
    from Settle True r have "sys_sent (sys_step x sys) = sys_sent sys @ map (Pair j) snt"
      by simp
    then have rq: "requests_of i (sys_step x sys) = requests_of i sys @ (if j = i then snt else [])"
      by (simp only: requests_of_def tagged_append)
    show ?thesis
    proof (cases "j = i")
      case False
      with Settle True r c' i v rq show ?thesis
        by simp
    next
      case same: True
      from r same have r':
        "resume_getAccessToken out t (sys_tasks sys ! i) (sys_state sys) = (tk', s', snt)"
        by simp
      from step creds v r'
      have "V (outs @ [out]) = (tk', requests_of i sys @ snt)" by blast
      with Settle True r c' i same rq show ?thesis
        by simp
    qed
  qed
next
  case (SetBaseUrl u)
  obtain r s' sent where "setBaseUrl u (sys_state sys) = (r, s', sent)"
    by (cases "setBaseUrl u (sys_state sys)") auto
  with SetBaseUrl creds i v setBaseUrl_creds [OF this] show ?thesis
    by (simp add: requests_of_def)
next
  case (SetRegion g)
  obtain r s' sent where "setRegion g (sys_state sys) = (r, s', sent)"
    by (cases "setRegion g (sys_state sys)") auto
  with SetRegion creds i v setRegion_creds [OF this] show ?thesis
    by (simp add: requests_of_def)
qed

lemma outcomes_for_Cons: "outcomes_for i (x # xs) = outcomes_for i [x] @ outcomes_for i xs"
  by (cases x) auto

lemma view_run:
  assumes step: "\<forall>outs tk rq out t s' tk' s'' snt.
      clientId s' = clientId s \<and> clientSecret s' = clientSecret s \<and> V outs = (tk, rq) \<and>
      resume_getAccessToken out t tk s' = (tk', s'', snt) \<longrightarrow> V (outs @ [out]) = (tk', rq @ snt)"
  shows "clientId (sys_state sys) = clientId s \<Longrightarrow> clientSecret (sys_state sys) = clientSecret s \<Longrightarrow>
     i < length (sys_tasks sys) \<Longrightarrow> V outs = (sys_tasks sys ! i, requests_of i sys) \<Longrightarrow>
     i < length (sys_tasks (sys_run xs sys))
     \<and> V (outs @ outcomes_for i xs)
         = (sys_tasks (sys_run xs sys) ! i, requests_of i (sys_run xs sys))"
proof (induction xs arbitrary: sys outs)
  case Nil
  then show ?case by simp
next
  case (Cons x xs)
  from view_step [OF step Cons.prems, of x]
  have st: "clientId (sys_state (sys_step x sys)) = clientId s"
    "clientSecret (sys_state (sys_step x sys)) = clientSecret s"
    "i < length (sys_tasks (sys_step x sys))"
    "V (outs @ outcomes_for i [x])
       = (sys_tasks (sys_step x sys) ! i, requests_of i (sys_step x sys))"
    by blast+
  from Cons.IH [OF st] show ?case
    by (simp add: outcomes_for_Cons [of i x xs])
qed

lemma requests_of_mem: "q \<in> set (requests_of i sys) \<Longrightarrow> (i, q) \<in> set (sys_sent sys)"
  by (auto simp: requests_of_def)

lemma requests_of_none:
  "\<forall>p\<in>set (sys_sent sys). fst p < n \<Longrightarrow> map snd (filter (\<lambda>p. fst p = n) (sys_sent sys)) = []"
  by (auto simp: filter_empty_conv)

lemma calls_view:
  assumes "\<forall>now\<in>set nows. start_getAccessToken e now s = (T0, sent0)"
  shows "sys_state (sys_run (map (Call e) nows) \<lparr> sys_state = s, sys_tasks = [], sys_sent = [] \<rparr>) = s
       \<and> length (sys_tasks (sys_run (map (Call e) nows)
                    \<lparr> sys_state = s, sys_tasks = [], sys_sent = [] \<rparr>)) = length nows
       \<and> (\<forall>i<length nows.
             sys_tasks (sys_run (map (Call e) nows)
               \<lparr> sys_state = s, sys_tasks = [], sys_sent = [] \<rparr>) ! i = T0
             \<and> requests_of i (sys_run (map (Call e) nows)
               \<lparr> sys_state = s, sys_tasks = [], sys_sent = [] \<rparr>) = sent0)
       \<and> (\<forall>p\<in>set (sys_sent (sys_run (map (Call e) nows)
               \<lparr> sys_state = s, sys_tasks = [], sys_sent = [] \<rparr>)). fst p < length nows)"
  using assms
proof (induction nows rule: rev_induct)
  case Nil
  then show ?case by simp
next
  case (snoc now nows)
  let ?sys = "sys_run (map (Call e) nows) \<lparr> sys_state = s, sys_tasks = [], sys_sent = [] \<rparr>"
  from snoc have IH: "sys_state ?sys = s" "length (sys_tasks ?sys) = length nows"
    "\<forall>i<length nows. sys_tasks ?sys ! i = T0 \<and> requests_of i ?sys = sent0"
    "\<forall>p\<in>set (sys_sent ?sys). fst p < length nows"
    and st: "start_getAccessToken e now s = (T0, sent0)"
    by simp_all
  have run: "sys_run (map (Call e) (nows @ [now]))
               \<lparr> sys_state = s, sys_tasks = [], sys_sent = [] \<rparr> = sys_step (Call e now) ?sys"
    by (simp add: sys_run_append)
  have step: "sys_step (Call e now) ?sys =
      ?sys\<lparr> sys_tasks := sys_tasks ?sys @ [T0],
            sys_sent := sys_sent ?sys @ map (Pair (length nows)) sent0 \<rparr>"
    using IH(1,2) st by simp
  have sent: "sys_sent (sys_step (Call e now) ?sys) = sys_sent ?sys @ map (Pair (length nows)) sent0"
    unfolding step by simp
  have tasks: "sys_tasks (sys_step (Call e now) ?sys) = sys_tasks ?sys @ [T0]"
    unfolding step by simp
  have state: "sys_state (sys_step (Call e now) ?sys) = s"
    unfolding step using IH(1) by simp
  have rq: "requests_of i (sys_step (Call e now) ?sys)
            = requests_of i ?sys @ (if length nows = i then sent0 else [])" for i
    unfolding requests_of_def sent by (simp only: tagged_append)
  have none: "requests_of (length nows) ?sys = []"
    unfolding requests_of_def using IH(4) by (rule requests_of_none)
  have t1: "sys_tasks (sys_step (Call e now) ?sys) ! i = T0" if "i < length (nows @ [now])" for i
  proof -
    from that consider "i < length nows" | "i = length nows" by fastforce
    then show ?thesis
      unfolding tasks using IH(2,3) by cases (simp_all add: nth_append)
  qed
  have t2: "requests_of i (sys_step (Call e now) ?sys) = sent0" if "i < length (nows @ [now])" for i
  proof -
    from that consider "i < length nows" | "i = length nows" by fastforce
    then show ?thesis
      unfolding rq using IH(3) none by cases simp_all
  qed
  have t3: "length (sys_tasks (sys_step (Call e now) ?sys)) = length (nows @ [now])"
    unfolding tasks using IH(2) by simp
  have t4: "\<forall>p\<in>set (sys_sent (sys_step (Call e now) ?sys)). fst p < length (nows @ [now])"
    unfolding sent using IH(4) by auto
  show ?case
    unfolding run using state t1 t2 t3 t4 by blast
qed

lemma count_tags:
  assumes "\<forall>i<n. (i, q) \<in> set L"
  shows "n \<le> length (filter (\<lambda>p. snd p = q) L)"
proof -
  have "(\<lambda>i. (i, q)) ` {..<n} \<subseteq> set (filter (\<lambda>p. snd p = q) L)"
    using assms by auto
  then have "card ((\<lambda>i. (i, q)) ` {..<n}) \<le> card (set (filter (\<lambda>p. snd p = q) L))"
    by (rule card_mono [OF finite_set])
  moreover have "card ((\<lambda>i. (i, q)) ` {..<n}) = n"
    by (simp add: card_image inj_on_def)
  moreover have "card (set (filter (\<lambda>p. snd p = q) L)) \<le> length (filter (\<lambda>p. snd p = q) L)"
    by (rule card_length)
  ultimately show ?thesis by simp
qed

lemma sweep_view_requests:
  "j < length cs \<Longrightarrow> j \<le> length (takeWhile isl outs) \<Longrightarrow>
   token_request s (cs ! j) \<in> set (snd (sweep_view s cs outs))"
proof -
  assume j: "j < length cs" "j \<le> length (takeWhile isl outs)"
  then have "j < length (take (Suc (length (takeWhile isl outs))) cs)" by simp
  then have "take (Suc (length (takeWhile isl outs))) cs ! j
             \<in> set (take (Suc (length (takeWhile isl outs))) cs)"
    by (rule nth_mem)
  with j have "cs ! j \<in> set (take (Suc (length (takeWhile isl outs))) cs)" by simp
  then show ?thesis
    by (simp add: sweep_view_def Let_def)
qed

text \<open>
  C3, as the code has it. Concurrent calls are not collapsed; there is no shared
  acquisition. When \<open>N\<close> calls are started on a configured object with no usable cached
  token before any token request has settled, then under every schedule of what follows
  (answers in any order, further calls, \<open>setBaseUrl\<close> and \<open>setRegion\<close> in between) call
  \<open>i\<close> is what its own answers make it. On a pinned endpoint it has sent its own request
  there and ends with the token or the error of that request. Otherwise it has asked the
  candidates in order up to its own first success and ends with the token of that success,
  or with the error that lists every candidate. Hence a candidate that all \<open>N\<close> calls have
  reached has received at least \<open>N\<close> token requests, and so has the pinned endpoint.
\<close>

theorem concurrent_calls_not_collapsed:
  assumes conf: "isConfigured s" and nocache: "\<forall>now\<in>set nows. cached_token s now = None"
  shows "(\<forall>i<length nows.
            (sys_tasks (sys_run (map (Call e) nows @ xs)
                \<lparr> sys_state = s, sys_tasks = [], sys_sent = [] \<rparr>) ! i,
             requests_of i (sys_run (map (Call e) nows @ xs)
                \<lparr> sys_state = s, sys_tasks = [], sys_sent = [] \<rparr>))
            = (if endpoint_pinned s then explicit_view s (outcomes_for i xs)
               else sweep_view s (getCandidateBaseUrls e) (outcomes_for i xs)))
       \<and> (\<forall>j<length (getCandidateBaseUrls e).
            \<not> endpoint_pinned s
            \<and> (\<forall>i<length nows. j \<le> length (takeWhile isl (outcomes_for i xs)))
            \<longrightarrow> length nows
                \<le> length (filter (\<lambda>p. snd p = token_request s (getCandidateBaseUrls e ! j))
                    (sys_sent (sys_run (map (Call e) nows @ xs)
                       \<lparr> sys_state = s, sys_tasks = [], sys_sent = [] \<rparr>))))
       \<and> (endpoint_pinned s
            \<longrightarrow> length nows
                \<le> length (filter (\<lambda>p. snd p = token_request s (or_empty (baseUrl s)))
                    (sys_sent (sys_run (map (Call e) nows @ xs)
                       \<lparr> sys_state = s, sys_tasks = [], sys_sent = [] \<rparr>))))"
proof -
  let ?ini = "sys_run (map (Call e) nows) \<lparr> sys_state = s, sys_tasks = [], sys_sent = [] \<rparr>"
  let ?fin = "sys_run (map (Call e) nows @ xs) \<lparr> sys_state = s, sys_tasks = [], sys_sent = [] \<rparr>"
  let ?cs = "getCandidateBaseUrls e"
  have run: "?fin = sys_run xs ?ini" by (rule sys_run_append)
  have cs: "?cs \<noteq> []" by (rule candidates_not_Nil)
  have sweepstep: "\<forall>outs tk rq out t s' tk' s'' snt.
      clientId s' = clientId s \<and> clientSecret s' = clientSecret s \<and> sweep_view s ?cs outs = (tk, rq) \<and>
      resume_getAccessToken out t tk s' = (tk', s'', snt)
      \<longrightarrow> sweep_view s ?cs (outs @ [out]) = (tk', rq @ snt)"
    using sweep_view_step [OF cs] by blast
  have explstep: "\<forall>outs tk rq out t s' tk' s'' snt.
      clientId s' = clientId s \<and> clientSecret s' = clientSecret s \<and> explicit_view s outs = (tk, rq) \<and>
      resume_getAccessToken out t tk s' = (tk', s'', snt)
      \<longrightarrow> explicit_view s (outs @ [out]) = (tk', rq @ snt)"
    using explicit_view_step by blast
  have view: "(sys_tasks ?fin ! i, requests_of i ?fin)
       = (if endpoint_pinned s then explicit_view s (outcomes_for i xs)
          else sweep_view s ?cs (outcomes_for i xs))" if i: "i < length nows" for i
  proof (cases "endpoint_pinned s")
    case True
    with conf nocache have "\<forall>now\<in>set nows. start_getAccessToken e now s =
        (AwaitingExplicit, [token_request s (or_empty (baseUrl s))])"
      by (simp add: start_getAccessToken_def endpoint_pinned_def)
    from calls_view [OF this] i
    have c: "clientId (sys_state ?ini) = clientId s" "clientSecret (sys_state ?ini) = clientSecret s"
      "i < length (sys_tasks ?ini)"
      "explicit_view s [] = (sys_tasks ?ini ! i, requests_of i ?ini)"
      by (simp_all add: explicit_view_def)
    from view_run [of s "explicit_view s", OF explstep c, of xs] True show ?thesis
      unfolding run by simp
  next
    case False
    obtain c cs' where cc: "?cs = c # cs'" using cs by (cases ?cs) auto
    with False conf nocache have "\<forall>now\<in>set nows. start_getAccessToken e now s =
        (AwaitingCandidate [c] c cs', [token_request s c])"
      by (simp add: start_getAccessToken_def endpoint_pinned_def)
    from calls_view [OF this] i
    have c: "clientId (sys_state ?ini) = clientId s" "clientSecret (sys_state ?ini) = clientSecret s"
      "i < length (sys_tasks ?ini)"
      "sweep_view s ?cs [] = (sys_tasks ?ini ! i, requests_of i ?ini)"
      by (simp_all add: sweep_view_def cc)
    from view_run [of s "sweep_view s ?cs", OF sweepstep c, of xs] False show ?thesis
      unfolding run by simp
  qed
  have sweepcount: "length nows
        \<le> length (filter (\<lambda>p. snd p = token_request s (?cs ! j)) (sys_sent ?fin))"
    if j: "j < length ?cs" and np: "\<not> endpoint_pinned s"
      and all: "\<forall>i<length nows. j \<le> length (takeWhile isl (outcomes_for i xs))" for j
  proof (rule count_tags, intro allI impI)
    fix i assume i: "i < length nows"
    from view [OF i] np have "requests_of i ?fin = snd (sweep_view s ?cs (outcomes_for i xs))"
      by (metis snd_conv)
    with sweep_view_requests [OF j, of "outcomes_for i xs" s] all i
    have "token_request s (?cs ! j) \<in> set (requests_of i ?fin)" by simp
    then show "(i, token_request s (?cs ! j)) \<in> set (sys_sent ?fin)" by (rule requests_of_mem)
  qed
  have explcount: "length nows
        \<le> length (filter (\<lambda>p. snd p = token_request s (or_empty (baseUrl s))) (sys_sent ?fin))"
    if p: "endpoint_pinned s"
  proof (rule count_tags, intro allI impI)
    fix i assume i: "i < length nows"
    from view [OF i] p have "requests_of i ?fin = snd (explicit_view s (outcomes_for i xs))"
      by (metis snd_conv)
    then have "token_request s (or_empty (baseUrl s)) \<in> set (requests_of i ?fin)"
      by (simp add: explicit_view_def)
    then show "(i, token_request s (or_empty (baseUrl s))) \<in> set (sys_sent ?fin)"
      by (rule requests_of_mem)
  qed
  from view sweepcount explcount show ?thesis by blast
qed

text \<open>
  Two calls on an empty cache and an unpinned object: the first gets its token from the
  second candidate, the second from the third, and the second candidate is asked twice.
  And two calls on a stale cache with the EU host pinned: each sends its own request to
  that host, the one whose request fails gets the error and the other gets its token.
\<close>

theorem concurrent_calls_not_collapsed_witness:
  "isConfigured (constructor example_env) \<and> cached_token (constructor example_env) 0 = None
   \<and> \<not> endpoint_pinned (constructor example_env)
   \<and> (sys_tasks (sys_run
        [Call example_env 0, Call example_env 0,
         Settle 0 (Inl (Error ''fetch failed'')) 1, Settle 1 (Inl (Error ''fetch failed'')) 1,
         Settle 1 (Inl (Error ''fetch failed'')) 2,
         Settle 0 (Inr \<lparr> access_token = ''A'', expires_in = 3600 \<rparr>) 1000,
         Settle 1 (Inr \<lparr> access_token = ''B'', expires_in = 3600 \<rparr>) 1001]
        \<lparr> sys_state = constructor example_env, sys_tasks = [], sys_sent = [] \<rparr>) ! 0, requests_of 0 (sys_run
        [Call example_env 0, Call example_env 0,
         Settle 0 (Inl (Error ''fetch failed'')) 1, Settle 1 (Inl (Error ''fetch failed'')) 1,
         Settle 1 (Inl (Error ''fetch failed'')) 2,
         Settle 0 (Inr \<lparr> access_token = ''A'', expires_in = 3600 \<rparr>) 1000,
         Settle 1 (Inr \<lparr> access_token = ''B'', expires_in = 3600 \<rparr>) 1001]
        \<lparr> sys_state = constructor example_env, sys_tasks = [], sys_sent = [] \<rparr>))
     = (Done (Inr ''A''),
        map (token_request (constructor example_env))
          [''https://app.ninjarmm.com'', ''https://us2.ninjarmm.com''])
   \<and> (sys_tasks (sys_run
        [Call example_env 0, Call example_env 0,
         Settle 0 (Inl (Error ''fetch failed'')) 1, Settle 1 (Inl (Error ''fetch failed'')) 1,
         Settle 1 (Inl (Error ''fetch failed'')) 2,
         Settle 0 (Inr \<lparr> access_token = ''A'', expires_in = 3600 \<rparr>) 1000,
         Settle 1 (Inr \<lparr> access_token = ''B'', expires_in = 3600 \<rparr>) 1001]
        \<lparr> sys_state = constructor example_env, sys_tasks = [], sys_sent = [] \<rparr>) ! 1, requests_of 1 (sys_run
        [Call example_env 0, Call example_env 0,
         Settle 0 (Inl (Error ''fetch failed'')) 1, Settle 1 (Inl (Error ''fetch failed'')) 1,
         Settle 1 (Inl (Error ''fetch failed'')) 2,
         Settle 0 (Inr \<lparr> access_token = ''A'', expires_in = 3600 \<rparr>) 1000,
         Settle 1 (Inr \<lparr> access_token = ''B'', expires_in = 3600 \<rparr>) 1001]
        \<lparr> sys_state = constructor example_env, sys_tasks = [], sys_sent = [] \<rparr>))
     = (Done (Inr ''B''),
        map (token_request (constructor example_env))
          [''https://app.ninjarmm.com'', ''https://us2.ninjarmm.com'', ''https://eu.ninjarmm.com''])
   \<and> 2 \<le> length (filter
            (\<lambda>p. snd p = token_request (constructor example_env) ''https://us2.ninjarmm.com'')
            (sys_sent (sys_run
        [Call example_env 0, Call example_env 0,
         Settle 0 (Inl (Error ''fetch failed'')) 1, Settle 1 (Inl (Error ''fetch failed'')) 1,
         Settle 1 (Inl (Error ''fetch failed'')) 2,
         Settle 0 (Inr \<lparr> access_token = ''A'', expires_in = 3600 \<rparr>) 1000,
         Settle 1 (Inr \<lparr> access_token = ''B'', expires_in = 3600 \<rparr>) 1001]
        \<lparr> sys_state = constructor example_env, sys_tasks = [], sys_sent = [] \<rparr>)))
   \<and> isConfigured cached_state \<and> cached_token cached_state 9000000 = None
   \<and> endpoint_pinned cached_state
   \<and> (sys_tasks (sys_run
        [Call example_env 9000000, Call example_env 9000000,
         Settle 1 (Inr \<lparr> access_token = ''B'', expires_in = 3600 \<rparr>) 9000001,
         Settle 0 (Inl (Error ''fetch failed'')) 9000002]
        \<lparr> sys_state = cached_state, sys_tasks = [], sys_sent = [] \<rparr>) ! 0,
      requests_of 0 (sys_run
        [Call example_env 9000000, Call example_env 9000000,
         Settle 1 (Inr \<lparr> access_token = ''B'', expires_in = 3600 \<rparr>) 9000001,
         Settle 0 (Inl (Error ''fetch failed'')) 9000002]
        \<lparr> sys_state = cached_state, sys_tasks = [], sys_sent = [] \<rparr>))
     = (Done (Inl (Error ''fetch failed'')),
        [token_request cached_state ''https://eu.ninjarmm.com''])
   \<and> (sys_tasks (sys_run
        [Call example_env 9000000, Call example_env 9000000,
         Settle 1 (Inr \<lparr> access_token = ''B'', expires_in = 3600 \<rparr>) 9000001,
         Settle 0 (Inl (Error ''fetch failed'')) 9000002]
        \<lparr> sys_state = cached_state, sys_tasks = [], sys_sent = [] \<rparr>) ! 1,
      requests_of 1 (sys_run
        [Call example_env 9000000, Call example_env 9000000,
         Settle 1 (Inr \<lparr> access_token = ''B'', expires_in = 3600 \<rparr>) 9000001,
         Settle 0 (Inl (Error ''fetch failed'')) 9000002]
        \<lparr> sys_state = cached_state, sys_tasks = [], sys_sent = [] \<rparr>))
     = (Done (Inr ''B''), [token_request cached_state ''https://eu.ninjarmm.com''])
   \<and> 2 \<le> length (filter
            (\<lambda>p. snd p = token_request cached_state ''https://eu.ninjarmm.com'')
            (sys_sent (sys_run
        [Call example_env 9000000, Call example_env 9000000,
         Settle 1 (Inr \<lparr> access_token = ''B'', expires_in = 3600 \<rparr>) 9000001,
         Settle 0 (Inl (Error ''fetch failed'')) 9000002]
        \<lparr> sys_state = cached_state, sys_tasks = [], sys_sent = [] \<rparr>)))"
proof -
  let ?s = "constructor example_env"
  define xs where "xs =
        [Settle 0 (Inl (Error ''fetch failed'')) 1, Settle 1 (Inl (Error ''fetch failed'')) 1,
         Settle 1 (Inl (Error ''fetch failed'')) 2,
         Settle 0 (Inr \<lparr> access_token = ''A'', expires_in = 3600 \<rparr>) 1000,
         Settle 1 (Inr \<lparr> access_token = ''B'', expires_in = 3600 \<rparr>) 1001]"
  have c: "isConfigured ?s" and n: "cached_token ?s 0 = None" and p: "\<not> endpoint_pinned ?s"
    by (simp_all add: constructor_example endpoint_pinned_def cached_token_def)
  from n have n': "\<forall>now\<in>set [0, 0]. cached_token ?s now = None" by simp
  note T = concurrent_calls_not_collapsed [OF c n', of example_env xs]
  have eq: "map (Call example_env) [0, 0] @ xs = [Call example_env 0, Call example_env 0,
         Settle 0 (Inl (Error ''fetch failed'')) 1, Settle 1 (Inl (Error ''fetch failed'')) 1,
         Settle 1 (Inl (Error ''fetch failed'')) 2,
         Settle 0 (Inr \<lparr> access_token = ''A'', expires_in = 3600 \<rparr>) 1000,
         Settle 1 (Inr \<lparr> access_token = ''B'', expires_in = 3600 \<rparr>) 1001]"
    by (simp add: xs_def)
  have i0: "(0::nat) < length [0::int, 0]" and i1: "(1::nat) < length [0::int, 0]" by simp_all
  have sv0: "sweep_view ?s (getCandidateBaseUrls example_env) (outcomes_for 0 xs)
      = (Done (Inr ''A''),
         map (token_request ?s) [''https://app.ninjarmm.com'', ''https://us2.ninjarmm.com''])"
    by (simp add: xs_def sweep_view_def example_candidates DEFAULT_CANDIDATES_def)
  have sv1: "sweep_view ?s (getCandidateBaseUrls example_env) (outcomes_for 1 xs)
      = (Done (Inr ''B''),
         map (token_request ?s)
           [''https://app.ninjarmm.com'', ''https://us2.ninjarmm.com'', ''https://eu.ninjarmm.com''])"
    by (simp add: xs_def sweep_view_def example_candidates DEFAULT_CANDIDATES_def)
  have j: "1 < length (getCandidateBaseUrls example_env)"
    and cj: "getCandidateBaseUrls example_env ! 1 = ''https://us2.ninjarmm.com''"
    by (simp_all add: example_candidates DEFAULT_CANDIDATES_def)
  have all: "\<forall>i<length [0::int, 0]. 1 \<le> length (takeWhile isl (outcomes_for i xs))"
    by (simp add: xs_def All_less_Suc)
  have len: "length [0::int, 0] = 2" by simp
  have v0: "(sys_tasks (sys_run
        [Call example_env 0, Call example_env 0,
         Settle 0 (Inl (Error ''fetch failed'')) 1, Settle 1 (Inl (Error ''fetch failed'')) 1,
         Settle 1 (Inl (Error ''fetch failed'')) 2,
         Settle 0 (Inr \<lparr> access_token = ''A'', expires_in = 3600 \<rparr>) 1000,
         Settle 1 (Inr \<lparr> access_token = ''B'', expires_in = 3600 \<rparr>) 1001]
        \<lparr> sys_state = constructor example_env, sys_tasks = [], sys_sent = [] \<rparr>) ! 0, requests_of 0 (sys_run
        [Call example_env 0, Call example_env 0,
         Settle 0 (Inl (Error ''fetch failed'')) 1, Settle 1 (Inl (Error ''fetch failed'')) 1,
         Settle 1 (Inl (Error ''fetch failed'')) 2,
         Settle 0 (Inr \<lparr> access_token = ''A'', expires_in = 3600 \<rparr>) 1000,
         Settle 1 (Inr \<lparr> access_token = ''B'', expires_in = 3600 \<rparr>) 1001]
        \<lparr> sys_state = constructor example_env, sys_tasks = [], sys_sent = [] \<rparr>))
     = (Done (Inr ''A''),
        map (token_request ?s) [''https://app.ninjarmm.com'', ''https://us2.ninjarmm.com''])"
    using T [THEN conjunct1, THEN spec [where x = 0], THEN mp, OF i0]
    unfolding eq if_not_P [OF p] sv0 .
  have v1: "(sys_tasks (sys_run
        [Call example_env 0, Call example_env 0,
         Settle 0 (Inl (Error ''fetch failed'')) 1, Settle 1 (Inl (Error ''fetch failed'')) 1,
         Settle 1 (Inl (Error ''fetch failed'')) 2,
         Settle 0 (Inr \<lparr> access_token = ''A'', expires_in = 3600 \<rparr>) 1000,
         Settle 1 (Inr \<lparr> access_token = ''B'', expires_in = 3600 \<rparr>) 1001]
        \<lparr> sys_state = constructor example_env, sys_tasks = [], sys_sent = [] \<rparr>) ! 1, requests_of 1 (sys_run
        [Call example_env 0, Call example_env 0,
         Settle 0 (Inl (Error ''fetch failed'')) 1, Settle 1 (Inl (Error ''fetch failed'')) 1,
         Settle 1 (Inl (Error ''fetch failed'')) 2,
         Settle 0 (Inr \<lparr> access_token = ''A'', expires_in = 3600 \<rparr>) 1000,
         Settle 1 (Inr \<lparr> access_token = ''B'', expires_in = 3600 \<rparr>) 1001]
        \<lparr> sys_state = constructor example_env, sys_tasks = [], sys_sent = [] \<rparr>))
     = (Done (Inr ''B''),
        map (token_request ?s)
          [''https://app.ninjarmm.com'', ''https://us2.ninjarmm.com'', ''https://eu.ninjarmm.com''])"
    using T [THEN conjunct1, THEN spec [where x = 1], THEN mp, OF i1]
    unfolding eq if_not_P [OF p] sv1 .
  have cnt: "2 \<le> length (filter
            (\<lambda>p. snd p = token_request ?s ''https://us2.ninjarmm.com'') (sys_sent (sys_run
        [Call example_env 0, Call example_env 0,
         Settle 0 (Inl (Error ''fetch failed'')) 1, Settle 1 (Inl (Error ''fetch failed'')) 1,
         Settle 1 (Inl (Error ''fetch failed'')) 2,
         Settle 0 (Inr \<lparr> access_token = ''A'', expires_in = 3600 \<rparr>) 1000,
         Settle 1 (Inr \<lparr> access_token = ''B'', expires_in = 3600 \<rparr>) 1001]
        \<lparr> sys_state = constructor example_env, sys_tasks = [], sys_sent = [] \<rparr>)))"
    using T [THEN conjunct2, THEN conjunct1, THEN spec [where x = 1], THEN mp, OF j,
             THEN mp, OF conjI [OF p all]]
    unfolding eq cj len .
  define ys where "ys =
        [Settle 1 (Inr \<lparr> access_token = ''B'', expires_in = 3600 \<rparr>) 9000001,
         Settle 0 (Inl (Error ''fetch failed'')) 9000002]"
  have c2: "isConfigured cached_state" and n2: "cached_token cached_state 9000000 = None"
    and p2: "endpoint_pinned cached_state"
    by (simp_all add: cached_state_def endpoint_pinned_def cached_token_def)
  from n2 have n2': "\<forall>now\<in>set [9000000, 9000000]. cached_token cached_state now = None"
    by simp
  note U = concurrent_calls_not_collapsed [OF c2 n2', of example_env ys]
  have eq2: "map (Call example_env) [9000000, 9000000] @ ys = [Call example_env 9000000, Call example_env 9000000,
         Settle 1 (Inr \<lparr> access_token = ''B'', expires_in = 3600 \<rparr>) 9000001,
         Settle 0 (Inl (Error ''fetch failed'')) 9000002]"
    by (simp add: ys_def)
  have k0: "(0::nat) < length [9000000::int, 9000000]"
    and k1: "(1::nat) < length [9000000::int, 9000000]" by simp_all
  have ev0: "explicit_view cached_state (outcomes_for 0 ys)
      = (Done (Inl (Error ''fetch failed'')),
         [token_request cached_state ''https://eu.ninjarmm.com''])"
    by (simp add: ys_def explicit_view_def) (simp add: cached_state_def)
  have ev1: "explicit_view cached_state (outcomes_for 1 ys)
      = (Done (Inr ''B''), [token_request cached_state ''https://eu.ninjarmm.com''])"
    by (simp add: ys_def explicit_view_def) (simp add: cached_state_def)
  have url: "or_empty (baseUrl cached_state) = ''https://eu.ninjarmm.com''"
    by (simp add: cached_state_def)
  have len2: "length [9000000::int, 9000000] = 2" by simp
  have u0: "(sys_tasks (sys_run
        [Call example_env 9000000, Call example_env 9000000,
         Settle 1 (Inr \<lparr> access_token = ''B'', expires_in = 3600 \<rparr>) 9000001,
         Settle 0 (Inl (Error ''fetch failed'')) 9000002]
        \<lparr> sys_state = cached_state, sys_tasks = [], sys_sent = [] \<rparr>) ! 0,
      requests_of 0 (sys_run
        [Call example_env 9000000, Call example_env 9000000,
         Settle 1 (Inr \<lparr> access_token = ''B'', expires_in = 3600 \<rparr>) 9000001,
         Settle 0 (Inl (Error ''fetch failed'')) 9000002]
        \<lparr> sys_state = cached_state, sys_tasks = [], sys_sent = [] \<rparr>))
     = (Done (Inl (Error ''fetch failed'')),
        [token_request cached_state ''https://eu.ninjarmm.com''])"
    using U [THEN conjunct1, THEN spec [where x = 0], THEN mp, OF k0]
    unfolding eq2 if_P [OF p2] ev0 .
  have u1: "(sys_tasks (sys_run
        [Call example_env 9000000, Call example_env 9000000,
         Settle 1 (Inr \<lparr> access_token = ''B'', expires_in = 3600 \<rparr>) 9000001,
         Settle 0 (Inl (Error ''fetch failed'')) 9000002]
        \<lparr> sys_state = cached_state, sys_tasks = [], sys_sent = [] \<rparr>) ! 1,
      requests_of 1 (sys_run
        [Call example_env 9000000, Call example_env 9000000,
         Settle 1 (Inr \<lparr> access_token = ''B'', expires_in = 3600 \<rparr>) 9000001,
         Settle 0 (Inl (Error ''fetch failed'')) 9000002]
        \<lparr> sys_state = cached_state, sys_tasks = [], sys_sent = [] \<rparr>))
     = (Done (Inr ''B''), [token_request cached_state ''https://eu.ninjarmm.com''])"
    using U [THEN conjunct1, THEN spec [where x = 1], THEN mp, OF k1]
    unfolding eq2 if_P [OF p2] ev1 .
  have cnt2: "2 \<le> length (filter
            (\<lambda>p. snd p = token_request cached_state ''https://eu.ninjarmm.com'')
            (sys_sent (sys_run
        [Call example_env 9000000, Call example_env 9000000,
         Settle 1 (Inr \<lparr> access_token = ''B'', expires_in = 3600 \<rparr>) 9000001,
         Settle 0 (Inl (Error ''fetch failed'')) 9000002]
        \<lparr> sys_state = cached_state, sys_tasks = [], sys_sent = [] \<rparr>)))"
    using U [THEN conjunct2, THEN conjunct2, THEN mp, OF p2]
    unfolding eq2 url len2 .
  from c n p v0 v1 cnt c2 n2 p2 u0 u1 cnt2 show ?thesis by (intro conjI)
qed

text \<open>
  Two calls started on an empty cache. Both ask the first candidate, both go on to the
  second and the third when their requests fail: the two exhausted candidates receive two
  token requests each, and each call gets the token of its own request.
\<close>

theorem two_calls_two_sweeps:
  "sys_tasks (sys_run [Call example_env 0, Call example_env 0,
         Settle 0 (Inl (Error ''fetch failed'')) 1, Settle 1 (Inl (Error ''fetch failed'')) 1,
         Settle 0 (Inl (Error ''fetch failed'')) 2, Settle 1 (Inl (Error ''fetch failed'')) 2,
         Settle 0 (Inr \<lparr> access_token = ''A'', expires_in = 3600 \<rparr>) 1000,
         Settle 1 (Inr \<lparr> access_token = ''B'', expires_in = 3600 \<rparr>) 1001] \<lparr> sys_state = constructor example_env, sys_tasks = [], sys_sent = [] \<rparr>)
     = [Done (Inr ''A''), Done (Inr ''B'')]
   \<and> sys_sent (sys_run [Call example_env 0, Call example_env 0,
         Settle 0 (Inl (Error ''fetch failed'')) 1, Settle 1 (Inl (Error ''fetch failed'')) 1,
         Settle 0 (Inl (Error ''fetch failed'')) 2, Settle 1 (Inl (Error ''fetch failed'')) 2,
         Settle 0 (Inr \<lparr> access_token = ''A'', expires_in = 3600 \<rparr>) 1000,
         Settle 1 (Inr \<lparr> access_token = ''B'', expires_in = 3600 \<rparr>) 1001] \<lparr> sys_state = constructor example_env, sys_tasks = [], sys_sent = [] \<rparr>)
     = [(0, token_request (constructor example_env) ''https://app.ninjarmm.com''),
        (1, token_request (constructor example_env) ''https://app.ninjarmm.com''),
        (0, token_request (constructor example_env) ''https://us2.ninjarmm.com''),
        (1, token_request (constructor example_env) ''https://us2.ninjarmm.com''),
        (0, token_request (constructor example_env) ''https://eu.ninjarmm.com''),
        (1, token_request (constructor example_env) ''https://eu.ninjarmm.com'')]"
  by (simp add: start_getAccessToken_def constructor_example cached_token_def example_candidates
      DEFAULT_CANDIDATES_def store_token_def token_request_def)

section \<open>Properties of the gateway\<close>

lemma init_body_is_initialize:
  "is_init_example init_body
   \<and> \<not> is_init_example
         (JObj [(''jsonrpc'', JStr ''2.0''), (''id'', JNum (Fin 1)), (''method'', JStr ''initialize'')])
   \<and> \<not> is_init_example
         (JObj [(''jsonrpc'', JStr ''2.0''), (''id'', JNum (Fin 2)), (''method'', JStr ''ping'')])"
  by (simp add: is_init_example_def init_body_def)







lemma mcp_endpoint_handles:
  assumes "\<forall>k h. transports st k = Some h \<longrightarrow> h < created st"
    and "mcp_endpoint w isInit rq st = (r, st')"
  shows "\<forall>k h. transports st' k = Some h \<longrightarrow> h < created st'"
  using assms
  by (auto simp: mcp_endpoint_def Let_def less_Suc_eq split: if_splits)

lemma gateway_run_handles:
  "\<forall>k h. transports st k = Some h \<longrightarrow> h < created st \<Longrightarrow>
   gateway_run w isInit evs st = (rs, st') \<Longrightarrow>
   \<forall>k h. transports st' k = Some h \<longrightarrow> h < created st'"
proof (induction evs arbitrary: st rs st')
  case Nil
  then show ?case by simp
next
  case (Cons ev evs)
  obtain r st1 where step: "gateway_step w isInit ev st = (r, st1)"
    by (cases "gateway_step w isInit ev st") auto
  obtain rs1 st2 where run: "gateway_run w isInit evs st1 = (rs1, st2)"
    by (cases "gateway_run w isInit evs st1") auto
  have "\<forall>k h. transports st1 k = Some h \<longrightarrow> h < created st1"
  proof (cases ev)
    case (Request rq)
    with step obtain r0 where "mcp_endpoint w isInit rq st = (r0, st1)"
      by (auto split: prod.splits)
    from mcp_endpoint_handles [OF Cons.prems(1) this] show ?thesis .
  next
    case (Closed h)
    with step Cons.prems(1) show ?thesis
      by (auto simp: onclose_def Let_def split: if_splits)
  qed
  from Cons.IH [OF this run] Cons.prems(2) step run show ?case by simp
qed


lemma gateway_run_append:
  "gateway_run w isInit (xs @ ys) st =
     (case gateway_run w isInit xs st of
        (rs, st') \<Rightarrow> (case gateway_run w isInit ys st' of (rs', st'') \<Rightarrow> (rs @ rs', st'')))"
  by (induction xs arbitrary: st) (auto split: prod.splits)










text \<open>
  C7, as the code has it. For a POST in any state the gateway can reach: a body that is
  empty or falsy is answered with 400 \<open>Request body is empty or not valid JSON\<close>.
  Otherwise, an initialize body always gets a transport that no session has (with its own
  server instance), which handles the request whatever session header was supplied; that
  transport is registered under its session identifier if it has one when the request has
  been handled, and is not registered if it has none. A body that is not an initialize
  request, with a session header that is missing, empty or not in the registry, is answered
  with 400 \<open>Invalid or missing session ID\<close>; no transport handles it and the state is as
  before.
\<close>

theorem post_dispatch:
  assumes "rq_method rq = ''POST''" and "gateway_run w isInit evs initial_gateway = (rs, st)"
  shows "(body_rejected (parsed_body w (rq_body rq)) \<longrightarrow>
            mcp_endpoint w isInit rq st
              = (Status400 ''Request body is empty or not valid JSON'', st))
       \<and> (\<not> body_rejected (parsed_body w (rq_body rq))
            \<and> initialize_body isInit (parsed_body w (rq_body rq)) \<longrightarrow>
            fst (mcp_endpoint w isInit rq st) = Handled (created st)
            \<and> (\<forall>k. transports st k \<noteq> Some (created st))
            \<and> created (snd (mcp_endpoint w isInit rq st)) = Suc (created st)
            \<and> (\<forall>hdr. mcp_endpoint w isInit (rq\<lparr> rq_session := hdr \<rparr>) st
                       = mcp_endpoint w isInit rq st)
            \<and> (\<forall>k. rq_new_sessionId rq = Some k \<and> k \<noteq> [] \<longrightarrow>
                    transports (snd (mcp_endpoint w isInit rq st))
                      = (transports st)(k := Some (created st)))
            \<and> (\<not> truthy_str (rq_new_sessionId rq) \<longrightarrow>
                    transports (snd (mcp_endpoint w isInit rq st)) = transports st))
       \<and> (\<not> body_rejected (parsed_body w (rq_body rq))
            \<and> \<not> initialize_body isInit (parsed_body w (rq_body rq))
            \<and> no_valid_session st (rq_session rq) \<longrightarrow>
            mcp_endpoint w isInit rq st = (Status400 ''Invalid or missing session ID'', st))"
proof -
  have "\<forall>k h. transports initial_gateway k = Some h \<longrightarrow> h < created initial_gateway"
    by (simp add: initial_gateway_def)
  from gateway_run_handles [OF this assms(2)]
  have fresh: "\<forall>k. transports st k \<noteq> Some (created st)" by fastforce
  with assms(1) show ?thesis
    by (auto simp: mcp_endpoint_def Let_def)
qed

text \<open>
  On the gateway at its start: a ping that bears an unknown identifier is refused, and an
  initialize request with all its parameters that bears the same identifier opens a
  session under the identifier of its new transport.
\<close>

theorem post_dispatch_witness:
  "mcp_endpoint example_world is_init_example (ping_request (Some ''zzz'')) initial_gateway
     = (Status400 ''Invalid or missing session ID'', initial_gateway)
   \<and> fst (mcp_endpoint example_world is_init_example
            (init_request (Some ''zzz'') (Some ''s1'')) initial_gateway) = Handled 0
   \<and> transports (snd (mcp_endpoint example_world is_init_example
            (init_request (Some ''zzz'') (Some ''s1'')) initial_gateway)) ''s1'' = Some 0"
proof -
  have run: "gateway_run example_world is_init_example [] initial_gateway = ([], initial_gateway)"
    by simp
  have p: "rq_method (ping_request (Some ''zzz'')) = ''POST''"
    and i: "rq_method (init_request (Some ''zzz'') (Some ''s1'')) = ''POST''"
    by (simp_all add: ping_request_def init_request_def)
  have pb: "\<not> body_rejected (parsed_body example_world (rq_body (ping_request (Some ''zzz''))))"
    "\<not> initialize_body is_init_example (parsed_body example_world (rq_body (ping_request (Some ''zzz''))))"
    "no_valid_session initial_gateway (rq_session (ping_request (Some ''zzz'')))"
    by (simp_all add: ping_request_def parsed_body_def body_rejected_def initialize_body_def
        is_init_example_def no_valid_session_def initial_gateway_def)
  have ib: "\<not> body_rejected (parsed_body example_world (rq_body (init_request (Some ''zzz'') (Some ''s1''))))"
    "initialize_body is_init_example (parsed_body example_world (rq_body (init_request (Some ''zzz'') (Some ''s1''))))"
    "rq_new_sessionId (init_request (Some ''zzz'') (Some ''s1'')) = Some ''s1''"
    by (simp_all add: init_request_def init_body_def parsed_body_def body_rejected_def
        initialize_body_def is_init_example_def)
  from post_dispatch [OF p run] pb
  have 1: "mcp_endpoint example_world is_init_example (ping_request (Some ''zzz'')) initial_gateway
     = (Status400 ''Invalid or missing session ID'', initial_gateway)"
    by blast
  from post_dispatch [OF i run] ib
  have 2: "fst (mcp_endpoint example_world is_init_example
            (init_request (Some ''zzz'') (Some ''s1'')) initial_gateway) = Handled (created initial_gateway)"
    and 3: "transports (snd (mcp_endpoint example_world is_init_example
            (init_request (Some ''zzz'') (Some ''s1'')) initial_gateway))
           = (transports initial_gateway)(''s1'' := Some (created initial_gateway))"
    by auto
  from 1 2 3 show ?thesis by (simp add: initial_gateway_def)
qed

text \<open>
  An initialize request with all its parameters whose new transport ends up without a
  session identifier (the SDK answers a POST that lacks the \<open>Accept\<close> header it requires
  before it generates one) is handled by a new transport that is not registered; and a
  POST with the body \<open>{}\<close> and no session header is answered with the empty-body message,
  not the invalid-session one.
\<close>

theorem initialize_not_always_registered:
  "fst (mcp_endpoint example_world is_init_example (init_request None None) initial_gateway)
     = Handled 0
   \<and> transports (snd (mcp_endpoint example_world is_init_example (init_request None None)
                         initial_gateway)) = transports initial_gateway
   \<and> mcp_endpoint example_world is_init_example
        \<lparr> rq_method = ''POST'', rq_session = None, rq_body = Some (JObj []),
          rq_new_sessionId = None \<rparr> initial_gateway
       = (Status400 ''Request body is empty or not valid JSON'', initial_gateway)"
  by (simp add: mcp_endpoint_def init_request_def parsed_body_def init_body_def
      body_rejected_def is_init_example_def initialize_body_def initial_gateway_def Let_def)

end
